theory Spec2Isabelle
  imports Main "HOL-Library.AList"
begin

section \<open>Strings\<close>

text \<open>
  A Python string is modelled by its UTF-8 encoding, a \<open>string\<close> of 8-bit characters;
  the ASCII characters are the bytes below 128 and all other characters take several
  bytes from 128 up.

  \<open>str.lower\<close> maps \<open>A\<close>..\<open>Z\<close> to \<open>a\<close>..\<open>z\<close> in a string of ASCII characters. What it
  does to a string that holds other characters is decided by the Unicode case mapping
  (and, for the Greek final sigma, by the neighbours of a letter); that mapping is not
  part of the program and is a parameter of the model (\<open>unicode_lower\<close>, written
  \<open>ul\<close> further down): every function that lower-cases a string takes it as its first
  argument, and every theorem holds for every such mapping.
\<close>

definition ascii_uppercase :: string where
  "ascii_uppercase = ''ABCDEFGHIJKLMNOPQRSTUVWXYZ''"

definition ascii_lowercase :: string where
  "ascii_lowercase = ''abcdefghijklmnopqrstuvwxyz''"

definition lower_char :: "char \<Rightarrow> char" where
  "lower_char c =
     (case map_of (zip ascii_uppercase ascii_lowercase) c of Some l \<Rightarrow> l | None \<Rightarrow> c)"

definition isascii :: "string \<Rightarrow> bool" where
  "isascii s = list_all (\<lambda>c. \<not> digit7 c) s"

definition lower :: "(string \<Rightarrow> string) \<Rightarrow> string \<Rightarrow> string" where
  "lower unicode_lower s = (if isascii s then map lower_char s else unicode_lower s)"

text \<open>
  A fragment of the case mapping for the examples below: ASCII, and the capital
  letters of Latin-1 (U+00C0 to U+00DE without the multiplication sign U+00D7), whose
  encoding is the byte \<open>0xC3\<close> and a second byte that lower-casing raises by \<open>0x20\<close>.
\<close>

definition latin1_capitals :: string where
  "latin1_capitals =
     [CHR 0x80, CHR 0x81, CHR 0x82, CHR 0x83, CHR 0x84, CHR 0x85, CHR 0x86, CHR 0x87,
      CHR 0x88, CHR 0x89, CHR 0x8A, CHR 0x8B, CHR 0x8C, CHR 0x8D, CHR 0x8E, CHR 0x8F,
      CHR 0x90, CHR 0x91, CHR 0x92, CHR 0x93, CHR 0x94, CHR 0x95, CHR 0x96,
      CHR 0x98, CHR 0x99, CHR 0x9A, CHR 0x9B, CHR 0x9C, CHR 0x9D, CHR 0x9E]"

definition latin1_smalls :: string where
  "latin1_smalls =
     [CHR 0xA0, CHR 0xA1, CHR 0xA2, CHR 0xA3, CHR 0xA4, CHR 0xA5, CHR 0xA6, CHR 0xA7,
      CHR 0xA8, CHR 0xA9, CHR 0xAA, CHR 0xAB, CHR 0xAC, CHR 0xAD, CHR 0xAE, CHR 0xAF,
      CHR 0xB0, CHR 0xB1, CHR 0xB2, CHR 0xB3, CHR 0xB4, CHR 0xB5, CHR 0xB6,
      CHR 0xB8, CHR 0xB9, CHR 0xBA, CHR 0xBB, CHR 0xBC, CHR 0xBD, CHR 0xBE]"

fun latin1_lower :: "string \<Rightarrow> string" where
  "latin1_lower [] = []"
| "latin1_lower [c] = [lower_char c]"
| "latin1_lower (c # d # cs) =
     (if c = CHR 0xC3
      then c # (case map_of (zip latin1_capitals latin1_smalls) d of Some l \<Rightarrow> l | None \<Rightarrow> d)
             # latin1_lower cs
      else lower_char c # latin1_lower (d # cs))"

text \<open>\<open>s.startswith(pre)\<close> and \<open>s.endswith(suf)\<close>.\<close>

definition startswith :: "string \<Rightarrow> string \<Rightarrow> bool" where
  "startswith s pre = (take (length pre) s = pre)"

definition endswith :: "string \<Rightarrow> string \<Rightarrow> bool" where
  "endswith s suf = (length suf \<le> length s \<and> drop (length s - length suf) s = suf)"

text \<open>
  \<open>str.strip\<close> removes white space from both ends: the characters \<open>str.isspace\<close>
  accepts, which are U+0009 to U+000D, U+001C to U+0020, U+0085, U+00A0, U+1680,
  U+2000 to U+200A, U+2028, U+2029, U+202F, U+205F and U+3000, here in UTF-8.
  \<open>leading_space s\<close> is the number of bytes of the white space character \<open>s\<close> starts
  with, 0 when it starts with none; \<open>trailing_space\<close> likewise at the end.
\<close>

definition whitespace :: "string list" where
  "whitespace =
     [[CHR 0x09], [CHR 0x0A], [CHR 0x0B], [CHR 0x0C], [CHR 0x0D],
      [CHR 0x1C], [CHR 0x1D], [CHR 0x1E], [CHR 0x1F], [CHR 0x20],
      [CHR 0xC2, CHR 0x85], [CHR 0xC2, CHR 0xA0], [CHR 0xE1, CHR 0x9A, CHR 0x80],
      [CHR 0xE2, CHR 0x80, CHR 0x80], [CHR 0xE2, CHR 0x80, CHR 0x81],
      [CHR 0xE2, CHR 0x80, CHR 0x82], [CHR 0xE2, CHR 0x80, CHR 0x83],
      [CHR 0xE2, CHR 0x80, CHR 0x84], [CHR 0xE2, CHR 0x80, CHR 0x85],
      [CHR 0xE2, CHR 0x80, CHR 0x86], [CHR 0xE2, CHR 0x80, CHR 0x87],
      [CHR 0xE2, CHR 0x80, CHR 0x88], [CHR 0xE2, CHR 0x80, CHR 0x89],
      [CHR 0xE2, CHR 0x80, CHR 0x8A], [CHR 0xE2, CHR 0x80, CHR 0xA8],
      [CHR 0xE2, CHR 0x80, CHR 0xA9], [CHR 0xE2, CHR 0x80, CHR 0xAF],
      [CHR 0xE2, CHR 0x81, CHR 0x9F], [CHR 0xE3, CHR 0x80, CHR 0x80]]"

definition leading_space :: "string \<Rightarrow> nat" where
  "leading_space s = (case find (startswith s) whitespace of Some w \<Rightarrow> length w | None \<Rightarrow> 0)"

definition trailing_space :: "string \<Rightarrow> nat" where
  "trailing_space s = (case find (endswith s) whitespace of Some w \<Rightarrow> length w | None \<Rightarrow> 0)"

lemma leading_space_Nil: "leading_space [] = 0"
  by (simp add: leading_space_def whitespace_def startswith_def)

lemma trailing_space_Nil: "trailing_space [] = 0"
  by (simp add: trailing_space_def whitespace_def endswith_def)

function lstrip :: "string \<Rightarrow> string" where
  "lstrip s = (if leading_space s = 0 then s else lstrip (drop (leading_space s) s))"
  by pat_completeness auto

termination
proof (relation "measure length")
  show "wf (measure length)" by simp
next
  fix s :: string
  assume n: "leading_space s \<noteq> 0"
  then have "s \<noteq> []" using leading_space_Nil by auto
  with n show "(drop (leading_space s) s, s) \<in> measure length" by simp
qed

function rstrip :: "string \<Rightarrow> string" where
  "rstrip s = (if trailing_space s = 0 then s else rstrip (take (length s - trailing_space s) s))"
  by pat_completeness auto

termination
proof (relation "measure length")
  show "wf (measure length)" by simp
next
  fix s :: string
  assume n: "trailing_space s \<noteq> 0"
  then have "s \<noteq> []" using trailing_space_Nil by auto
  with n show "(take (length s - trailing_space s) s, s) \<in> measure length" by simp
qed

declare lstrip.simps [simp del] rstrip.simps [simp del]

definition strip :: "string \<Rightarrow> string" where
  "strip s = rstrip (lstrip s)"

text \<open>\<open>contains sub s\<close> is Python's \<open>sub in s\<close>.\<close>

fun contains :: "string \<Rightarrow> string \<Rightarrow> bool" where
  "contains sub [] = (sub = [])"
| "contains sub (c # cs) = (startswith (c # cs) sub \<or> contains sub cs)"

text \<open>\<open>join sep xs\<close> is \<open>sep.join(xs)\<close>; \<open>split_slash s\<close> is \<open>s.split("/")\<close>.\<close>

fun join :: "string \<Rightarrow> string list \<Rightarrow> string" where
  "join sep [] = []"
| "join sep [x] = x"
| "join sep (x # y # ys) = x @ sep @ join sep (y # ys)"

fun split_slash :: "string \<Rightarrow> string list" where
  "split_slash [] = [[]]"
| "split_slash (c # cs) =
     (if c = CHR ''/'' then [] # split_slash cs
      else (case split_slash cs of [] \<Rightarrow> [[c]] | s # ss \<Rightarrow> (c # s) # ss))"

text \<open>The decimal rendering of a natural number, as \<open>str(i)\<close> and \<open>f"{i}"\<close> give it.\<close>

definition digit_char :: "nat \<Rightarrow> char" where
  "digit_char d = ''0123456789'' ! d"

fun str_nat :: "nat \<Rightarrow> string" where
  "str_nat n =
     (if n < 10 then [digit_char n] else str_nat (n div 10) @ [digit_char (n mod 10)])"

declare str_nat.simps [simp del]

text \<open>\<open>rjust w s\<close> is the format specification \<open>{s:>w}\<close>: right-aligned in \<open>w\<close> columns.\<close>

definition rjust :: "nat \<Rightarrow> string \<Rightarrow> string" where
  "rjust w s = replicate (w - length s) CHR '' '' @ s"


section \<open>Paths (pathlib on POSIX)\<close>

text \<open>
  A path is the list of its components below the filesystem root, so every path of the
  model is absolute and normalised; the root itself is \<open>[]\<close>. A component is a name:
  non-empty and without \<open>/\<close>.
\<close>

type_synonym path = "string list"

definition valid_name :: "string \<Rightarrow> bool" where
  "valid_name s = (s \<noteq> [] \<and> CHR ''/'' \<notin> set s)"

definition path_name :: "path \<Rightarrow> string" where
  "path_name p = (if p = [] then [] else last p)"

definition path_parent :: "path \<Rightarrow> path" where
  "path_parent p = butlast p"

text \<open>\<open>str(p)\<close> for an absolute path, and for a relative one (\<open>p.relative_to(root)\<close>).\<close>

definition str_path :: "path \<Rightarrow> string" where
  "str_path p = CHR ''/'' # join ''/'' p"

definition relative_to :: "path \<Rightarrow> path \<Rightarrow> string list" where
  "relative_to p root = drop (length root) p"

definition str_relative :: "string list \<Rightarrow> string" where
  "str_relative segs = (if segs = [] then ''.'' else join ''/'' segs)"

text \<open>
  \<open>PurePath.suffix\<close> and \<open>PurePath.stem\<close> of a file name, as pathlib defines them up to
  Python 3.13: with \<open>i = name.rfind(".")\<close>, the suffix is \<open>name[i:]\<close> when
  \<open>0 < i < len(name) - 1\<close> and empty otherwise; the stem is the rest.
\<close>

fun rfind :: "char \<Rightarrow> string \<Rightarrow> nat option" where
  "rfind c [] = None"
| "rfind c (x # xs) =
     (case rfind c xs of
        Some i \<Rightarrow> Some (Suc i)
      | None \<Rightarrow> (if x = c then Some 0 else None))"

definition path_suffix :: "string \<Rightarrow> string" where
  "path_suffix name =
     (case rfind CHR ''.'' name of
        None \<Rightarrow> []
      | Some i \<Rightarrow> (if 0 < i \<and> Suc i < length name then drop i name else []))"

definition path_stem :: "string \<Rightarrow> string" where
  "path_stem name =
     (case rfind CHR ''.'' name of
        None \<Rightarrow> name
      | Some i \<Rightarrow> (if 0 < i \<and> Suc i < length name then take i name else name))"

text \<open>
  \<open>joinpath base s\<close> is \<open>base / s\<close> for a string \<open>s\<close>: the string is split at \<open>/\<close>, empty
  and \<open>.\<close> components are dropped, and a string that starts with \<open>/\<close> is an absolute path
  that replaces \<open>base\<close>. (A \<open>..\<close> component is kept as a name, as pathlib keeps it; the
  filesystem model below does not interpret it.)
\<close>

definition joinpath :: "path \<Rightarrow> string \<Rightarrow> path" where
  "joinpath base s =
     (let parts = filter (\<lambda>x. x \<noteq> [] \<and> x \<noteq> ''.'') (split_slash s)
      in if startswith s ''/'' then parts else base @ parts)"

text \<open>
  \<open>Path.resolve\<close>: the model has no symbolic links and holds absolute normalised paths
  only, so resolving a path gives the path itself.
\<close>

definition resolve :: "path \<Rightarrow> path" where
  "resolve p = p"


section \<open>The filesystem\<close>

text \<open>
  The organizer's only state is the filesystem. It is an association list from paths to
  nodes: a regular file with its content, or a directory. The order of the list is the
  order in which a directory scan meets the entries. The root directory always exists.
  The content of a file is either a well-formed JSON document, held as the value
  \<open>json.load\<close> returns for it and \<open>json.dump\<close> writes, or any other text.
\<close>

datatype json = JStr string | JObj "(string \<times> json) list" | JOther

datatype content = Json json | Raw string

datatype node = File content | Dir

type_synonym filesystem = "(path \<times> node) list"

definition lookup :: "filesystem \<Rightarrow> path \<Rightarrow> node option" where
  "lookup fs p = (if p = [] then Some Dir else map_of fs p)"

definition exists :: "filesystem \<Rightarrow> path \<Rightarrow> bool" where
  "exists fs p = (lookup fs p \<noteq> None)"

definition is_dir :: "filesystem \<Rightarrow> path \<Rightarrow> bool" where
  "is_dir fs p = (lookup fs p = Some Dir)"

definition is_file :: "filesystem \<Rightarrow> path \<Rightarrow> bool" where
  "is_file fs p = (case lookup fs p of Some (File c) \<Rightarrow> True | _ \<Rightarrow> False)"


section \<open>Collision-free destinations\<close>

text \<open>The candidate \<open>f"{stem} ({i}){suffix}"\<close> of \<open>unique_destination\<close>.\<close>

definition numbered_name :: "string \<Rightarrow> string \<Rightarrow> nat \<Rightarrow> string" where
  "numbered_name stem suffix i = stem @ '' ('' @ str_nat i @ '')'' @ suffix"

lemma digit_char_inj: "a < 10 \<Longrightarrow> b < 10 \<Longrightarrow> digit_char a = digit_char b \<Longrightarrow> a = b"
proof -
  assume a: "a < 10" and b: "b < 10" and eq: "digit_char a = digit_char b"
  have d: "distinct ''0123456789''" by simp
  have "a < length ''0123456789''" "b < length ''0123456789''" using a b by simp_all
  with d eq show "a = b" unfolding digit_char_def by (simp only: nth_eq_iff_index_eq)
qed

lemma str_nat_nonempty: "str_nat n \<noteq> []"
  by (subst str_nat.simps) simp

lemma str_nat_inj: "str_nat a = str_nat b \<Longrightarrow> a = b"
proof (induction a arbitrary: b rule: str_nat.induct)
  case (1 n)
  show ?case
  proof (cases "n < 10")
    case small_n: True
    show ?thesis
    proof (cases "b < 10")
      case True
      with small_n "1.prems" show ?thesis
        by (simp add: str_nat.simps [of n] str_nat.simps [of b] digit_char_inj)
    next
      case False
      with small_n "1.prems" have "str_nat (b div 10) = []"
        by (simp add: str_nat.simps [of n] str_nat.simps [of b])
      then show ?thesis by (simp add: str_nat_nonempty)
    qed
  next
    case big_n: False
    show ?thesis
    proof (cases "b < 10")
      case True
      with big_n "1.prems" have "str_nat (n div 10) = []"
        by (simp add: str_nat.simps [of n] str_nat.simps [of b])
      then show ?thesis by (simp add: str_nat_nonempty)
    next
      case False
      with big_n "1.prems" have q: "str_nat (n div 10) = str_nat (b div 10)"
        and r: "digit_char (n mod 10) = digit_char (b mod 10)"
        by (simp_all add: str_nat.simps [of n] str_nat.simps [of b])
      from "1.IH" [OF big_n q] have "n div 10 = b div 10" .
      moreover from r have "n mod 10 = b mod 10" by (simp add: digit_char_inj)
      ultimately show ?thesis by (metis div_mult_mod_eq)
    qed
  qed
qed

lemma numbered_name_inj: "numbered_name stem suffix i = numbered_name stem suffix j \<Longrightarrow> i = j"
proof -
  assume "numbered_name stem suffix i = numbered_name stem suffix j"
  then have "str_nat i @ '')'' @ suffix = str_nat j @ '')'' @ suffix"
    by (simp add: numbered_name_def)
  then have "str_nat i = str_nat j" by simp
  then show "i = j" by (rule str_nat_inj)
qed

lemma length_filter_strict:
  assumes sub: "\<And>y. P y \<Longrightarrow> Q y" and x: "x \<in> set xs" and q: "Q x" and np: "\<not> P x"
  shows "length (filter P xs) < length (filter Q xs)"
proof -
  have "filter P xs = filter P (filter Q xs)"
    using sub by (auto intro: filter_cong)
  moreover from x q have "x \<in> set (filter Q xs)" by simp
  then have "length (filter P (filter Q xs)) < length (filter Q xs)"
    using np by (rule length_filter_less)
  ultimately show ?thesis by simp
qed

lemma exists_in_keys: "exists fs (d @ [n]) \<Longrightarrow> d @ [n] \<in> fst ` set fs"
  by (auto simp: exists_def lookup_def dest: map_of_SomeD intro: rev_image_eqI)

text \<open>
  The \<open>while True\<close> loop of \<open>unique_destination\<close>, from counter \<open>i\<close> on. It terminates
  because the filesystem holds finitely many entries and the candidates are pairwise
  different: every round meets an entry that no earlier round has met.
\<close>

function unique_destination_loop ::
  "filesystem \<Rightarrow> path \<Rightarrow> string \<Rightarrow> string \<Rightarrow> nat \<Rightarrow> path" where
  "unique_destination_loop fs dst_dir stem suffix i =
     (let candidate = dst_dir @ [numbered_name stem suffix i]
      in if \<not> exists fs candidate then candidate
         else unique_destination_loop fs dst_dir stem suffix (i + 1))"
  by pat_completeness auto

termination
proof (relation "measure (\<lambda>(fs, dst_dir, stem, suffix, i).
    length (filter (\<lambda>e. \<forall>j<i. fst e \<noteq> dst_dir @ [numbered_name stem suffix j]) fs))")
  show "wf (measure (\<lambda>(fs, dst_dir, stem, suffix, i).
    length (filter (\<lambda>e. \<forall>j<i. fst e \<noteq> dst_dir @ [numbered_name stem suffix j]) fs)))"
    by simp
next
  fix fs :: filesystem and dst_dir :: path and stem suffix :: string and i :: nat
    and candidate :: path
  assume c: "candidate = dst_dir @ [numbered_name stem suffix i]"
    and ex: "\<not> \<not> exists fs candidate"
  from ex c have "dst_dir @ [numbered_name stem suffix i] \<in> fst ` set fs"
    by (simp add: exists_in_keys)
  then obtain e where e: "e \<in> set fs" "fst e = dst_dir @ [numbered_name stem suffix i]"
    by auto
  have fresh: "\<forall>j<i. fst e \<noteq> dst_dir @ [numbered_name stem suffix j]"
    using e(2) by (auto dest: numbered_name_inj)
  have "length (filter (\<lambda>e. \<forall>j<i + 1. fst e \<noteq> dst_dir @ [numbered_name stem suffix j]) fs)
      < length (filter (\<lambda>e. \<forall>j<i. fst e \<noteq> dst_dir @ [numbered_name stem suffix j]) fs)"
  proof (rule length_filter_strict [where x = e])
    show "e \<in> set fs" by (rule e(1))
    show "\<forall>j<i. fst e \<noteq> dst_dir @ [numbered_name stem suffix j]" by (rule fresh)
    show "\<not> (\<forall>j<i + 1. fst e \<noteq> dst_dir @ [numbered_name stem suffix j])"
      using e(2) by auto
  qed auto
  then show "((fs, dst_dir, stem, suffix, i + 1), (fs, dst_dir, stem, suffix, i))
      \<in> measure (\<lambda>(fs, dst_dir, stem, suffix, i).
          length (filter (\<lambda>e. \<forall>j<i. fst e \<noteq> dst_dir @ [numbered_name stem suffix j]) fs))"
    by simp
qed

declare unique_destination_loop.simps [simp del]

definition unique_destination :: "filesystem \<Rightarrow> path \<Rightarrow> string \<Rightarrow> path" where
  "unique_destination fs dst_dir name =
     (let candidate = dst_dir @ [name]
      in if \<not> exists fs candidate then candidate
         else unique_destination_loop fs dst_dir (path_stem name) (path_suffix name) 2)"


section \<open>Errors and basic filesystem operations\<close>

text \<open>
  Every exception the organizer can meet is a value. \<open>SystemExit\<close> carries the message
  the program exits with; for the others \<open>error_text\<close> stands for \<open>str(e)\<close> (the
  operating system's wording is not modelled, only the kind of the error).
\<close>

datatype error =
    FileNotFoundError | FileExistsError | NotADirectoryError | IsADirectoryError
  | ShutilError | JSONDecodeError | AttributeError | TypeError | SystemExit string

fun error_text :: "error \<Rightarrow> string" where
  "error_text FileNotFoundError = ''No such file or directory''"
| "error_text FileExistsError = ''File exists''"
| "error_text NotADirectoryError = ''Not a directory''"
| "error_text IsADirectoryError = ''Is a directory''"
| "error_text ShutilError = ''Destination path already exists''"
| "error_text JSONDecodeError = ''Expecting value''"
| "error_text AttributeError = ''object has no attribute items''"
| "error_text TypeError = ''unsupported operand type(s) for /''"
| "error_text (SystemExit msg) = msg"

text \<open>
  The proper ancestors of a path, the root first, and the error of an operation that
  needs the parent of \<open>p\<close> to be a directory when it is not: \<open>ENOTDIR\<close> when a regular
  file stands on the way, \<open>ENOENT\<close> otherwise.
\<close>

definition ancestors :: "path \<Rightarrow> path list" where
  "ancestors p = map (\<lambda>n. take n p) [0..<length p]"

definition parent_error :: "filesystem \<Rightarrow> path \<Rightarrow> error" where
  "parent_error fs p =
     (if list_ex (is_file fs) (ancestors p) then NotADirectoryError else FileNotFoundError)"

text \<open>\<open>os.mkdir\<close>: creates one directory; its parent must be a directory.\<close>

definition os_mkdir :: "filesystem \<Rightarrow> path \<Rightarrow> error + filesystem" where
  "os_mkdir fs p =
     (if exists fs p then Inl FileExistsError
      else if is_dir fs (path_parent p) then Inr (fs @ [(p, Dir)])
      else Inl (parent_error fs p))"

text \<open>
  \<open>Path.mkdir(parents=True, exist_ok=True)\<close>, following pathlib: try \<open>os.mkdir\<close>; on
  \<open>FileNotFoundError\<close> create the parent the same way and try once more; any other
  \<open>OSError\<close> is swallowed when the path is a directory already. The result is the
  exception raised, if any, and the filesystem as the call leaves it.
\<close>

function mkdir :: "filesystem \<Rightarrow> path \<Rightarrow> error option \<times> filesystem" where
  "mkdir fs p =
     (case os_mkdir fs p of
        Inr fs' \<Rightarrow> (None, fs')
      | Inl e \<Rightarrow>
          (if e = FileNotFoundError then
             (if path_parent p = p then (Some FileNotFoundError, fs)
              else (case mkdir fs (path_parent p) of
                      (Some e', fs') \<Rightarrow> (Some e', fs')
                    | (None, fs') \<Rightarrow>
                        (case os_mkdir fs' p of
                           Inr fs'' \<Rightarrow> (None, fs'')
                         | Inl e' \<Rightarrow>
                             (if e' \<noteq> FileNotFoundError \<and> is_dir fs' p then (None, fs')
                              else (Some e', fs')))))
           else if is_dir fs p then (None, fs)
           else (Some e, fs)))"
  by pat_completeness auto

termination
proof (relation "measure (\<lambda>(fs, p). length p)")
  show "wf (measure (\<lambda>(fs, p). length p))" by simp
next
  fix fs :: filesystem and p :: path and e :: error
  assume "path_parent p \<noteq> p"
  then have "p \<noteq> []" by (auto simp: path_parent_def)
  then show "((fs, path_parent p), (fs, p)) \<in> measure (\<lambda>(fs, p). length p)"
    by (simp add: path_parent_def)
qed

declare mkdir.simps [simp del]

text \<open>
  Opening a file for writing and writing \<open>c\<close> to it (\<open>open(p, "w")\<close>, then the write):
  the file is created or replaced; its directory must exist.
\<close>

definition write_file :: "filesystem \<Rightarrow> path \<Rightarrow> content \<Rightarrow> error option \<times> filesystem" where
  "write_file fs p c =
     (if is_dir fs p then (Some IsADirectoryError, fs)
      else if is_dir fs (path_parent p) then (None, AList.update p (File c) fs)
      else (Some (parent_error fs p), fs))"

text \<open>Opening a file for reading and parsing it with \<open>json.load\<close>.\<close>

definition read_json :: "filesystem \<Rightarrow> path \<Rightarrow> error + json" where
  "read_json fs p =
     (case lookup fs p of
        None \<Rightarrow> Inl (parent_error fs p)
      | Some Dir \<Rightarrow> Inl IsADirectoryError
      | Some (File (Raw t)) \<Rightarrow> Inl JSONDecodeError
      | Some (File (Json j)) \<Rightarrow> Inr j)"

text \<open>
  \<open>shutil.move(s, d)\<close>. A destination that is a directory receives the source under
  its own name, unless that name is taken. A regular file is renamed onto the
  destination and replaces a regular file that is there (\<open>os.rename\<close> on POSIX). A
  directory moves with everything below it, but not into itself and not onto a file.
\<close>

definition move_tree :: "filesystem \<Rightarrow> path \<Rightarrow> path \<Rightarrow> filesystem" where
  "move_tree fs s d =
     map (\<lambda>(p, n). if take (length s) p = s then (d @ drop (length s) p, n) else (p, n)) fs"

definition rename_or_copy :: "filesystem \<Rightarrow> path \<Rightarrow> path \<Rightarrow> path \<Rightarrow> error option \<times> filesystem" where
  "rename_or_copy fs s real_dst d =
     (case lookup fs s of
        None \<Rightarrow> (Some FileNotFoundError, fs)
      | Some (File c) \<Rightarrow>
          (if is_dir fs real_dst then (Some IsADirectoryError, fs)
           else if is_dir fs (path_parent real_dst)
           then (None, AList.update real_dst (File c) (AList.delete s fs))
           else (Some (parent_error fs real_dst), fs))
      | Some Dir \<Rightarrow>
          (if take (length s) d = s then (Some ShutilError, fs)
           else if is_file fs real_dst then (Some FileExistsError, fs)
           else if is_dir fs (path_parent real_dst) then (None, move_tree fs s real_dst)
           else (Some (parent_error fs real_dst), fs)))"

definition shutil_move :: "filesystem \<Rightarrow> path \<Rightarrow> path \<Rightarrow> error option \<times> filesystem" where
  "shutil_move fs s d =
     (if is_dir fs d then
        (if s = d then (None, fs)
         else (let real_dst = d @ [path_name s]
               in if exists fs real_dst then (Some ShutilError, fs)
                  else rename_or_copy fs s real_dst d))
      else rename_or_copy fs s d d)"


section \<open>The rule mapping\<close>

definition DEFAULT_RULES_items :: "(string \<times> string) list" where
  "DEFAULT_RULES_items =
     [(''.pdf'', ''docs''), (''.doc'', ''docs''), (''.docx'', ''docs''),
      (''.odt'', ''docs''), (''.txt'', ''docs''), (''.md'', ''docs''),
      (''.rtf'', ''docs''), (''.xls'', ''sheets''), (''.xlsx'', ''sheets''),
      (''.csv'', ''sheets''), (''.ppt'', ''slides''), (''.pptx'', ''slides''),
      (''.jpg'', ''images''), (''.jpeg'', ''images''), (''.png'', ''images''),
      (''.gif'', ''images''), (''.tif'', ''images''), (''.tiff'', ''images''),
      (''.bmp'', ''images''), (''.webp'', ''images''), (''.mp3'', ''audio''),
      (''.wav'', ''audio''), (''.flac'', ''audio''), (''.m4a'', ''audio''),
      (''.mp4'', ''video''), (''.mov'', ''video''), (''.mkv'', ''video''),
      (''.avi'', ''video''), (''.zip'', ''archives''), (''.rar'', ''archives''),
      (''.7z'', ''archives''), (''.tar'', ''archives''), (''.gz'', ''archives''),
      (''.py'', ''code''), (''.ipynb'', ''code''), (''.js'', ''code''),
      (''.ts'', ''code''), (''.json'', ''data''), (''.yml'', ''config''),
      (''.yaml'', ''config''), (''.toml'', ''config'')]"

text \<open>The table as the JSON object \<open>json.dump\<close> writes, and as the \<open>dict\<close> the program uses.\<close>

definition DEFAULT_RULES_json :: json where
  "DEFAULT_RULES_json = JObj (map (\<lambda>(k, v). (k, JStr v)) DEFAULT_RULES_items)"

definition DEFAULT_RULES :: "string \<rightharpoonup> json" where
  "DEFAULT_RULES = map_of (map (\<lambda>(k, v). (k, JStr v)) DEFAULT_RULES_items)"

text \<open>The body of the loop of \<open>load_rules\<close>: one key, normalised to lower case with a leading dot.\<close>

definition normalize_key :: "(string \<Rightarrow> string) \<Rightarrow> string \<Rightarrow> string" where
  "normalize_key ul k = (let k' = lower ul (strip k) in if startswith k' ''.'' then k' else ''.'' @ k')"

definition normalize_items :: "(string \<Rightarrow> string) \<Rightarrow> (string \<times> json) list \<Rightarrow> (string \<rightharpoonup> json)" where
  "normalize_items ul items = fold (\<lambda>(k, v) normalized. normalized(normalize_key ul k \<mapsto> v)) items Map.empty"

text \<open>
  \<open>load_rules\<close>. Whatever goes wrong inside the \<open>try\<close> (the file cannot be opened, is not
  JSON, or holds a value without \<open>items\<close>) ends the program through \<open>SystemExit\<close>.
\<close>

definition load_rules ::
  "(string \<Rightarrow> string) \<Rightarrow> filesystem \<Rightarrow> path option \<Rightarrow> error + (string \<rightharpoonup> json)" where
  "load_rules ul fs path =
     (case path of
        None \<Rightarrow> Inr DEFAULT_RULES
      | Some p \<Rightarrow>
          (case (case read_json fs p of
                   Inl e \<Rightarrow> Inl e
                 | Inr (JObj items) \<Rightarrow> Inr (normalize_items ul items)
                 | Inr j \<Rightarrow> Inl AttributeError) of
             Inl e \<Rightarrow> Inl (SystemExit (''Failed to load rules from '' @ str_path p @ '': '' @ error_text e))
           | Inr normalized \<Rightarrow> Inr normalized))"

definition write_default_rules :: "filesystem \<Rightarrow> path \<Rightarrow> error option \<times> filesystem" where
  "write_default_rules fs path =
     (if exists fs path
      then (Some (SystemExit (''Refusing to overwrite existing rules file: '' @ str_path path)), fs)
      else write_file fs path (Json DEFAULT_RULES_json))"


section \<open>Enumerating files\<close>

text \<open>
  The paths present, each once, in scan order; the direct children of a directory
  (\<open>root.iterdir()\<close>) and everything below it (\<open>root.rglob("*")\<close>, which yields nothing
  when \<open>root\<close> is not a directory).
\<close>

definition paths :: "filesystem \<Rightarrow> path list" where
  "paths fs = remdups (map fst fs)"

definition iterdir :: "filesystem \<Rightarrow> path \<Rightarrow> path list" where
  "iterdir fs root = filter (\<lambda>p. p \<noteq> [] \<and> path_parent p = root) (paths fs)"

definition rglob :: "filesystem \<Rightarrow> path \<Rightarrow> path list" where
  "rglob fs root =
     (if is_dir fs root
      then filter (\<lambda>p. length root < length p \<and> take (length root) p = root) (paths fs)
      else [])"

text \<open>\<open>HIDDEN_PATTERN.search(s)\<close> for the pattern \<open>(^\.|/\.)\<close>.\<close>

definition HIDDEN_PATTERN_search :: "string \<Rightarrow> bool" where
  "HIDDEN_PATTERN_search s = (startswith s ''.'' \<or> contains ''/.'' s)"

text \<open>
  \<open>iter_files\<close>, as the list of the paths the generator yields. Planning creates
  directories only, so the files a scan meets do not depend on when it is consumed.
  Listing a root that is not a directory raises.
\<close>

definition iter_files :: "filesystem \<Rightarrow> path \<Rightarrow> bool \<Rightarrow> bool \<Rightarrow> error + path list" where
  "iter_files fs root recursive include_hidden =
     (if recursive then
        Inr (filter (\<lambda>p. is_file fs p \<and>
               \<not> (\<not> include_hidden \<and> HIDDEN_PATTERN_search (str_relative (relative_to p root))))
             (rglob fs root))
      else if is_dir fs root then
        Inr (filter (\<lambda>p. is_file fs p \<and> \<not> (\<not> include_hidden \<and> startswith (path_name p) ''.''))
             (iterdir fs root))
      else if exists fs root then Inl NotADirectoryError
      else Inl FileNotFoundError)"


section \<open>Planning\<close>

definition categorize ::
  "(string \<Rightarrow> string) \<Rightarrow> path \<Rightarrow> (string \<rightharpoonup> json) \<Rightarrow> string \<Rightarrow> json" where
  "categorize ul path rules unknown =
     (let ext = lower ul (path_suffix (path_name path))
      in case rules ext of Some v \<Rightarrow> v | None \<Rightarrow> JStr unknown)"

datatype MovePlan = MovePlan (src: path) (dst: path)

text \<open>
  The loop of \<open>plan_moves\<close> over the enumerated files, with the plan list built so far.
  A category that is not a string makes \<open>rel_parent / category\<close> raise \<open>TypeError\<close>; a
  target directory that cannot be created raises too. The result is the plan or the
  exception, and the filesystem with the directories created on the way.
\<close>

fun plan_loop ::
  "(string \<Rightarrow> string) \<Rightarrow> path \<Rightarrow> (string \<rightharpoonup> json) \<Rightarrow> string \<Rightarrow> path list \<Rightarrow> MovePlan list \<Rightarrow> filesystem
     \<Rightarrow> (error + MovePlan list) \<times> filesystem" where
  "plan_loop ul dest rules unknown_folder [] moves fs = (Inr moves, fs)"
| "plan_loop ul dest rules unknown_folder (file # files) moves fs =
     (case categorize ul file rules unknown_folder of
        JStr category \<Rightarrow>
          (let target_dir = joinpath dest category
           in case mkdir fs target_dir of
                (Some e, fs') \<Rightarrow> (Inl e, fs')
              | (None, fs') \<Rightarrow>
                  (let d = unique_destination fs' target_dir (path_name file)
                   in if resolve file = resolve d
                      then plan_loop ul dest rules unknown_folder files moves fs'
                      else plan_loop ul dest rules unknown_folder files (moves @ [MovePlan file d]) fs'))
      | JObj items \<Rightarrow> (Inl TypeError, fs)
      | JOther \<Rightarrow> (Inl TypeError, fs))"

definition plan_moves ::
  "(string \<Rightarrow> string) \<Rightarrow> filesystem \<Rightarrow> path \<Rightarrow> path \<Rightarrow> bool \<Rightarrow> bool \<Rightarrow> (string \<rightharpoonup> json) \<Rightarrow> string
     \<Rightarrow> (error + MovePlan list) \<times> filesystem" where
  "plan_moves ul fs source dest recursive include_hidden rules unknown_folder =
     (case iter_files fs source recursive include_hidden of
        Inl e \<Rightarrow> (Inl e, fs)
      | Inr files \<Rightarrow> plan_loop ul dest rules unknown_folder files [] fs)"


section \<open>Moving\<close>

text \<open>The body of the \<open>try\<close> of \<open>apply_moves\<close> for one plan entry.\<close>

definition move_one :: "filesystem \<Rightarrow> MovePlan \<Rightarrow> error option \<times> filesystem" where
  "move_one fs m =
     (case mkdir fs (path_parent (dst m)) of
        (Some e, fs') \<Rightarrow> (Some e, fs')
      | (None, fs') \<Rightarrow> shutil_move fs' (src m) (dst m))"

definition failure_message :: "MovePlan \<Rightarrow> error \<Rightarrow> string" where
  "failure_message m e =
     ''Failed: '' @ str_path (src m) @ '' -> '' @ str_path (dst m) @ '' ('' @ error_text e @ '')''"

fun apply_loop ::
  "MovePlan list \<Rightarrow> nat \<Rightarrow> nat \<Rightarrow> string list \<Rightarrow> filesystem
     \<Rightarrow> (nat \<times> nat \<times> string list) \<times> filesystem" where
  "apply_loop [] ok failed errors fs = ((ok, failed, errors), fs)"
| "apply_loop (m # ms) ok failed errors fs =
     (case move_one fs m of
        (None, fs') \<Rightarrow> apply_loop ms (ok + 1) failed errors fs'
      | (Some e, fs') \<Rightarrow> apply_loop ms ok (failed + 1) (errors @ [failure_message m e]) fs')"

definition apply_moves :: "filesystem \<Rightarrow> MovePlan list \<Rightarrow> (nat \<times> nat \<times> string list) \<times> filesystem" where
  "apply_moves fs moves = apply_loop moves 0 0 [] fs"


section \<open>Reporting and the command line\<close>

definition preview_line :: "nat \<times> MovePlan \<Rightarrow> string" where
  "preview_line im =
     ''  '' @ rjust 3 (str_nat (fst im)) @ ''. '' @ str_path (src (snd im))
       @ ''  ->  '' @ str_path (dst (snd im))"

definition human_preview :: "MovePlan list \<Rightarrow> nat \<Rightarrow> string" where
  "human_preview moves max_show =
     join [CHR 0x0A]
       ([''Planned moves: '' @ str_nat (length moves) @ '' file(s)'']
        @ map preview_line (zip [1..<Suc (length moves)] (take max_show moves))
        @ (if length moves > max_show
           then [''  ... ('' @ str_nat (length moves - max_show) @ '' more)'']
           else []))"

text \<open>
  The parsed command line (\<open>argparse\<close> itself is not modelled), what the program writes
  and reads, and \<open>main\<close>. The line typed at the prompt is \<open>Some line\<close>, end of input is
  \<open>None\<close>. An exception that reaches the top ends the process with status 1 and its
  message on standard error. The result is the exit status, the output in order, and the
  filesystem the run leaves.
\<close>

record args =
  arg_source :: path
  arg_dest :: "path option"
  arg_rules :: "path option"
  arg_unknown_folder :: string
  arg_recursive :: bool
  arg_include_hidden :: bool
  arg_dry_run :: bool
  arg_yes :: bool
  arg_write_default_rules :: "path option"

datatype event = Stdout string | Stderr string | Prompt string

definition proceed_answer :: "(string \<Rightarrow> string) \<Rightarrow> string option \<Rightarrow> bool" where
  "proceed_answer ul stdin =
     (case stdin of None \<Rightarrow> False | Some line \<Rightarrow> lower ul (strip line) = ''y'')"

definition prompt_text :: string where
  "prompt_text = CHR 0x0A # ''Proceed to move these files? [y/N]: ''"

definition nothing_text :: string where
  "nothing_text = ''Nothing to do '' @ [CHR 0xE2, CHR 0x80, CHR 0x94] @ '' no files matched.''"

definition dry_run_text :: string where
  "dry_run_text = CHR 0x0A # ''Dry-run: no files were moved.''"

definition report :: "nat \<Rightarrow> nat \<Rightarrow> string list \<Rightarrow> nat \<times> event list" where
  "report ok failed errors =
     (let done = Stdout (CHR 0x0A # ''Done. Moved: '' @ str_nat ok @ '', Failed: '' @ str_nat failed)
      in if errors \<noteq> []
         then (if failed \<noteq> 0 then 2 else 0,
               [done, Stdout (CHR 0x0A # ''Errors:'')] @ map (\<lambda>e. Stdout (''  - '' @ e)) errors)
         else (0, [done]))"

definition organize ::
  "(string \<Rightarrow> string) \<Rightarrow> args \<Rightarrow> string option \<Rightarrow> MovePlan list \<Rightarrow> filesystem \<Rightarrow> nat \<times> event list \<times> filesystem" where
  "organize ul a stdin moves fs =
     (if moves = []
      then (0, [Stdout nothing_text], fs)
      else if arg_dry_run a
      then (0, [Stdout (human_preview moves 50), Stdout dry_run_text], fs)
      else if \<not> arg_yes a \<and> \<not> proceed_answer ul stdin
      then (0, [Stdout (human_preview moves 50), Prompt prompt_text, Stdout ''Aborted.''], fs)
      else (case apply_moves fs moves of
              ((ok, failed, errors), fs') \<Rightarrow>
                (fst (report ok failed errors),
                 [Stdout (human_preview moves 50)]
                   @ (if arg_yes a then [] else [Prompt prompt_text])
                   @ snd (report ok failed errors),
                 fs')))"

definition main ::
  "(string \<Rightarrow> string) \<Rightarrow> args \<Rightarrow> string option \<Rightarrow> filesystem \<Rightarrow> nat \<times> event list \<times> filesystem" where
  "main ul a stdin fs =
     (case arg_write_default_rules a of
        Some target \<Rightarrow>
          (case write_default_rules fs target of
             (Some e, fs') \<Rightarrow> (1, [Stderr (error_text e)], fs')
           | (None, fs') \<Rightarrow> (0, [Stdout (''Wrote default rules to '' @ str_path target)], fs'))
      | None \<Rightarrow>
          (let source = resolve (arg_source a);
               dest = resolve (case arg_dest a of Some d \<Rightarrow> d | None \<Rightarrow> source)
           in if exists fs source \<and> is_dir fs source then
                (case load_rules ul fs (arg_rules a) of
                   Inl e \<Rightarrow> (1, [Stderr (error_text e)], fs)
                 | Inr rules \<Rightarrow>
                     (case plan_moves ul fs source dest (arg_recursive a) (arg_include_hidden a)
                             rules (arg_unknown_folder a) of
                        (Inl e, fs') \<Rightarrow> (1, [Stderr (error_text e)], fs')
                      | (Inr moves, fs') \<Rightarrow> organize ul a stdin moves fs'))
              else (1, [Stderr (''Error: source not found or not a directory: '' @ str_path source)],
                    fs)))"


section \<open>Properties of \<open>unique_destination\<close>\<close>

lemma unique_destination_loop_spec:
  "\<exists>k\<ge>i. unique_destination_loop fs d st su i = d @ [numbered_name st su k]
      \<and> \<not> exists fs (d @ [numbered_name st su k])
      \<and> (\<forall>j. i \<le> j \<and> j < k \<longrightarrow> exists fs (d @ [numbered_name st su j]))"
proof (induction fs d st su i rule: unique_destination_loop.induct)
  case (1 fs d st su i)
  show ?case
  proof (cases "exists fs (d @ [numbered_name st su i])")
    case False
    then have "unique_destination_loop fs d st su i = d @ [numbered_name st su i]"
      by (simp add: unique_destination_loop.simps [of fs d st su i])
    with False show ?thesis by (intro exI [of _ i]) auto
  next
    case True
    then have step: "unique_destination_loop fs d st su i = unique_destination_loop fs d st su (i + 1)"
      by (simp add: unique_destination_loop.simps [of fs d st su i])
    from True have "\<not> \<not> exists fs (d @ [numbered_name st su i])" by simp
    from "1.IH" [OF refl this] obtain k where k: "i + 1 \<le> k"
      "unique_destination_loop fs d st su (i + 1) = d @ [numbered_name st su k]"
      "\<not> exists fs (d @ [numbered_name st su k])"
      "\<forall>j. i + 1 \<le> j \<and> j < k \<longrightarrow> exists fs (d @ [numbered_name st su j])"
      by blast
    have "\<forall>j. i \<le> j \<and> j < k \<longrightarrow> exists fs (d @ [numbered_name st su j])"
    proof (intro allI impI)
      fix j assume j: "i \<le> j \<and> j < k"
      show "exists fs (d @ [numbered_name st su j])"
      proof (cases "j = i")
        case True with \<open>exists fs (d @ [numbered_name st su i])\<close> show ?thesis by simp
      next
        case False with j k(4) show ?thesis by simp
      qed
    qed
    with k step show ?thesis by (intro exI [of _ k]) simp
  qed
qed

lemma stem_suffix: "path_stem name @ path_suffix name = name"
  by (simp add: path_stem_def path_suffix_def split: option.split)

lemma name_not_numbered: "name \<noteq> numbered_name (path_stem name) (path_suffix name) i"
proof
  assume "name = numbered_name (path_stem name) (path_suffix name) i"
  then have "length name = length (numbered_name (path_stem name) (path_suffix name) i)" by simp
  moreover have "length name = length (path_stem name) + length (path_suffix name)"
    by (metis stem_suffix length_append)
  ultimately show False by (simp add: numbered_name_def)
qed

text \<open>
  Claim C4. For every filesystem state, target directory and file name,
  \<open>unique_destination\<close> returns \<open>dst_dir/name\<close> when nothing of that name exists in the
  target directory. Otherwise it returns \<open>dst_dir/"stem (k)suffix"\<close> for the smallest
  \<open>k \<ge> 2\<close> whose name does not exist: the result is free and every candidate from 2 up
  to \<open>k - 1\<close> is taken. It never returns the candidate numbered 1.
\<close>

theorem unique_destination_smallest_free:
  "(\<not> exists fs (dst_dir @ [name]) \<longrightarrow> unique_destination fs dst_dir name = dst_dir @ [name])
   \<and> (exists fs (dst_dir @ [name]) \<longrightarrow>
        (\<exists>k\<ge>2. unique_destination fs dst_dir name
                   = dst_dir @ [numbered_name (path_stem name) (path_suffix name) k]
          \<and> \<not> exists fs (dst_dir @ [numbered_name (path_stem name) (path_suffix name) k])
          \<and> (\<forall>j. 2 \<le> j \<and> j < k \<longrightarrow>
                exists fs (dst_dir @ [numbered_name (path_stem name) (path_suffix name) j]))))
   \<and> unique_destination fs dst_dir name
        \<noteq> dst_dir @ [numbered_name (path_stem name) (path_suffix name) 1]"
proof (cases "exists fs (dst_dir @ [name])")
  case False
  then have "unique_destination fs dst_dir name = dst_dir @ [name]"
    by (simp add: unique_destination_def)
  with False show ?thesis by (simp add: name_not_numbered)
next
  case True
  then have u: "unique_destination fs dst_dir name
      = unique_destination_loop fs dst_dir (path_stem name) (path_suffix name) 2"
    by (simp add: unique_destination_def)
  from unique_destination_loop_spec [of 2 fs dst_dir "path_stem name" "path_suffix name"]
  obtain k where k: "2 \<le> k"
    "unique_destination_loop fs dst_dir (path_stem name) (path_suffix name) 2
       = dst_dir @ [numbered_name (path_stem name) (path_suffix name) k]"
    "\<not> exists fs (dst_dir @ [numbered_name (path_stem name) (path_suffix name) k])"
    "\<forall>j. 2 \<le> j \<and> j < k \<longrightarrow>
       exists fs (dst_dir @ [numbered_name (path_stem name) (path_suffix name) j])"
    by blast
  have "numbered_name (path_stem name) (path_suffix name) k
      \<noteq> numbered_name (path_stem name) (path_suffix name) 1"
    using k(1) by (auto dest: numbered_name_inj)
  with True u k show ?thesis by auto
qed

text \<open>
  A target directory in which \<open>report.pdf\<close> and \<open>report (2).pdf\<close> are taken: the next
  \<open>report.pdf\<close> becomes \<open>report (3).pdf\<close>, while \<open>notes\<close> keeps its name.
\<close>

definition taken_fs :: filesystem where
  "taken_fs = [([''out''], Dir), ([''out'', ''docs''], Dir),
               ([''out'', ''docs'', ''report.pdf''], File (Raw ''first'')),
               ([''out'', ''docs'', ''report (2).pdf''], File (Raw ''second''))]"

theorem unique_destination_smallest_free_witness:
  "exists taken_fs ([''out'', ''docs''] @ [''report.pdf''])
   \<and> unique_destination taken_fs [''out'', ''docs''] ''report.pdf'' = [''out'', ''docs'', ''report (3).pdf'']
   \<and> \<not> exists taken_fs ([''out'', ''docs''] @ [''notes''])
   \<and> unique_destination taken_fs [''out'', ''docs''] ''notes'' = [''out'', ''docs'', ''notes'']
   \<and> unique_destination taken_fs [''out'', ''docs''] ''report.pdf''
        \<noteq> [''out'', ''docs''] @ [numbered_name (path_stem ''report.pdf'') (path_suffix ''report.pdf'') 1]"
proof -
  have a: "exists taken_fs ([''out'', ''docs''] @ [''report.pdf''])" by code_simp
  have b: "unique_destination taken_fs [''out'', ''docs''] ''report.pdf'' = [''out'', ''docs'', ''report (3).pdf'']"
    by code_simp
  have c: "\<not> exists taken_fs ([''out'', ''docs''] @ [''notes''])" by code_simp
  from c unique_destination_smallest_free [of taken_fs "[''out'', ''docs'']" "''notes''"]
  have d: "unique_destination taken_fs [''out'', ''docs''] ''notes'' = [''out'', ''docs'', ''notes'']"
    by simp
  from unique_destination_smallest_free [of taken_fs "[''out'', ''docs'']" "''report.pdf''"]
  have e: "unique_destination taken_fs [''out'', ''docs''] ''report.pdf''
        \<noteq> [''out'', ''docs''] @ [numbered_name (path_stem ''report.pdf'') (path_suffix ''report.pdf'') 1]"
    by blast
  from a b c d e show ?thesis by blast
qed


section \<open>Properties of \<open>categorize\<close> and of the rule mapping\<close>

lemma rfind_None: "c \<notin> set s \<Longrightarrow> rfind c s = None"
  by (induction s) auto

lemma rfind_last: "c \<notin> set b \<Longrightarrow> rfind c (a @ c # b) = Some (length a)"
  by (induction a) (auto simp: rfind_None)

lemma path_suffix_final:
  "stem \<noteq> [] \<Longrightarrow> e \<noteq> [] \<Longrightarrow> CHR ''.'' \<notin> set e \<Longrightarrow> path_suffix (stem @ ''.'' @ e) = ''.'' @ e"
  by (simp add: path_suffix_def rfind_last)

lemma path_suffix_no_dot: "CHR ''.'' \<notin> set name \<Longrightarrow> path_suffix name = []"
  by (simp add: path_suffix_def rfind_None)

lemma path_suffix_dotfile: "CHR ''.'' \<notin> set rest \<Longrightarrow> path_suffix (CHR ''.'' # rest) = []"
  using rfind_last [of "CHR ''.''" rest "[]"] by (simp add: path_suffix_def)

lemma lower_Nil: "lower ul [] = []"
  by (simp add: lower_def isascii_def)

lemma lower_ascii_dot: "isascii e \<Longrightarrow> lower ul (''.'' @ e) = ''.'' @ map lower_char e"
  by (simp add: lower_def isascii_def lower_char_def ascii_uppercase_def ascii_lowercase_def)

text \<open>A rule mapping that sends \<open>.txt\<close> to the folder that is also the fallback.\<close>

definition same_rules :: "string \<rightharpoonup> json" where
  "same_rules = [''.txt'' \<mapsto> JStr ''others'']"

text \<open>
  Claim C6, as stated, fails in its last part: the fallback is not returned exactly
  when the key is absent. Here the key \<open>.txt\<close> is present, and \<open>categorize\<close> returns
  the fallback name all the same, because the mapping's value for it is that name.
\<close>

theorem categorize_fallback_with_key_present:
  "lower latin1_lower (path_suffix (path_name [''in'', ''a.txt''])) = ''.txt''
   \<and> same_rules ''.txt'' \<noteq> None
   \<and> categorize latin1_lower [''in'', ''a.txt''] same_rules ''others'' = JStr ''others''"
  by (simp add: categorize_def same_rules_def path_name_def path_suffix_def lower_def
      isascii_def lower_char_def ascii_uppercase_def ascii_lowercase_def)

text \<open>
  Claim C6, amended. For every file path, rule mapping, fallback name and case
  mapping, \<open>categorize\<close> looks the file's final extension up, lower-cased and with its
  leading dot: a name \<open>stem.e\<close> whose last part \<open>e\<close> has no further dot is looked up
  under the lower-cased \<open>.e\<close> (so \<open>name.tar.gz\<close> under \<open>.gz\<close>; for an ASCII extension
  that is \<open>.\<close> followed by \<open>e\<close> with \<open>A\<close>..\<open>Z\<close> turned into \<open>a\<close>..\<open>z\<close>), a name without
  any dot under the empty string. The result is the mapping's value when the key is
  present and the fallback when the key is absent; so it is the fallback exactly when
  the key is absent or the mapping's value for it is the fallback name itself.
\<close>

theorem categorize_final_suffix:
  "(stem \<noteq> [] \<and> e \<noteq> [] \<and> CHR ''.'' \<notin> set e \<and> path_name path = stem @ ''.'' @ e \<longrightarrow>
      categorize ul path rules unknown
        = (case rules (lower ul (''.'' @ e)) of Some v \<Rightarrow> v | None \<Rightarrow> JStr unknown)
      \<and> (isascii e \<longrightarrow> lower ul (''.'' @ e) = ''.'' @ map lower_char e))
   \<and> (CHR ''.'' \<notin> set (path_name path) \<longrightarrow>
      categorize ul path rules unknown = (case rules [] of Some v \<Rightarrow> v | None \<Rightarrow> JStr unknown))
   \<and> (\<forall>v. rules (lower ul (path_suffix (path_name path))) = Some v \<longrightarrow>
          categorize ul path rules unknown = v)
   \<and> (rules (lower ul (path_suffix (path_name path))) = None \<longrightarrow>
          categorize ul path rules unknown = JStr unknown)
   \<and> (categorize ul path rules unknown = JStr unknown \<longleftrightarrow>
          rules (lower ul (path_suffix (path_name path))) = None
          \<or> rules (lower ul (path_suffix (path_name path))) = Some (JStr unknown))"
proof (intro conjI impI allI)
  assume "stem \<noteq> [] \<and> e \<noteq> [] \<and> CHR ''.'' \<notin> set e \<and> path_name path = stem @ ''.'' @ e"
  then have "path_suffix (path_name path) = ''.'' @ e"
    using path_suffix_final [of stem e] by simp
  then show "categorize ul path rules unknown
      = (case rules (lower ul (''.'' @ e)) of Some v \<Rightarrow> v | None \<Rightarrow> JStr unknown)"
    by (simp add: categorize_def)
next
  assume "isascii e"
  then show "lower ul (''.'' @ e) = ''.'' @ map lower_char e" by (rule lower_ascii_dot)
next
  assume "CHR ''.'' \<notin> set (path_name path)"
  then have "path_suffix (path_name path) = []" by (rule path_suffix_no_dot)
  then show "categorize ul path rules unknown = (case rules [] of Some v \<Rightarrow> v | None \<Rightarrow> JStr unknown)"
    by (simp add: categorize_def lower_Nil)
next
  fix v assume "rules (lower ul (path_suffix (path_name path))) = Some v"
  then show "categorize ul path rules unknown = v" by (simp add: categorize_def)
next
  assume "rules (lower ul (path_suffix (path_name path))) = None"
  then show "categorize ul path rules unknown = JStr unknown" by (simp add: categorize_def)
next
  show "categorize ul path rules unknown = JStr unknown \<longleftrightarrow>
          rules (lower ul (path_suffix (path_name path))) = None
          \<or> rules (lower ul (path_suffix (path_name path))) = Some (JStr unknown)"
    by (cases "rules (lower ul (path_suffix (path_name path)))") (simp_all add: categorize_def)
qed

text \<open>
  With the built-in table: \<open>name.tar.GZ\<close> goes to \<open>archives\<close>, \<open>notes\<close> and \<open>x.tar.xz\<close>
  to the fallback, \<open>photo.JPG\<close> to \<open>images\<close>. With a rule for \<open>.\<close> followed by U+00E9
  (e acute), a file whose extension is U+00C9 (E acute) goes where the rule says.
\<close>

definition accent_rules :: "string \<rightharpoonup> json" where
  "accent_rules = [''.'' @ [CHR 0xC3, CHR 0xA9] \<mapsto> JStr ''acc'']"

theorem categorize_final_suffix_witness:
  "''name.tar'' \<noteq> [] \<and> ''GZ'' \<noteq> [] \<and> CHR ''.'' \<notin> set ''GZ'' \<and> isascii ''GZ''
   \<and> path_name [''in'', ''name.tar.GZ''] = ''name.tar'' @ ''.'' @ ''GZ''
   \<and> categorize latin1_lower [''in'', ''name.tar.GZ''] DEFAULT_RULES ''others'' = JStr ''archives''
   \<and> CHR ''.'' \<notin> set (path_name [''in'', ''notes''])
   \<and> categorize latin1_lower [''in'', ''notes''] DEFAULT_RULES ''others'' = JStr ''others''
   \<and> DEFAULT_RULES (lower latin1_lower (path_suffix (path_name [''in'', ''photo.JPG''])))
       = Some (JStr ''images'')
   \<and> categorize latin1_lower [''in'', ''photo.JPG''] DEFAULT_RULES ''others'' = JStr ''images''
   \<and> DEFAULT_RULES (lower latin1_lower (path_suffix (path_name [''in'', ''x.tar.xz'']))) = None
   \<and> categorize latin1_lower [''in'', ''x.tar.xz''] DEFAULT_RULES ''others'' = JStr ''others''
   \<and> path_name [''in'', ''x.'' @ [CHR 0xC3, CHR 0x89]] = ''x'' @ ''.'' @ [CHR 0xC3, CHR 0x89]
   \<and> categorize latin1_lower [''in'', ''x.'' @ [CHR 0xC3, CHR 0x89]] accent_rules ''others''
       = JStr ''acc''"
proof -
  have gz: "DEFAULT_RULES (''.'' @ map lower_char ''GZ'') = Some (JStr ''archives'')" by code_simp
  have asc: "isascii ''GZ''" by code_simp
  have none: "DEFAULT_RULES [] = None" by code_simp
  have jpg: "DEFAULT_RULES (lower latin1_lower (path_suffix (path_name [''in'', ''photo.JPG''])))
       = Some (JStr ''images'')"
    by code_simp
  have xz: "DEFAULT_RULES (lower latin1_lower (path_suffix (path_name [''in'', ''x.tar.xz'']))) = None"
    by code_simp
  have acc: "accent_rules (lower latin1_lower (''.'' @ [CHR 0xC3, CHR 0x89])) = Some (JStr ''acc'')"
    by code_simp
  have n1: "path_name [''in'', ''name.tar.GZ''] = ''name.tar'' @ ''.'' @ ''GZ''"
    by (simp add: path_name_def)
  have n2: "CHR ''.'' \<notin> set (path_name [''in'', ''notes''])" by (simp add: path_name_def)
  have n3: "path_name [''in'', ''x.'' @ [CHR 0xC3, CHR 0x89]] = ''x'' @ ''.'' @ [CHR 0xC3, CHR 0x89]"
    by (simp add: path_name_def)
  note t1 = categorize_final_suffix [where stem = "''name.tar''" and e = "''GZ''"
      and path = "[''in'', ''name.tar.GZ'']" and rules = DEFAULT_RULES and unknown = "''others''"
      and ul = latin1_lower]
  note t2 = categorize_final_suffix [where stem = "''name.tar''" and e = "''GZ''"
      and path = "[''in'', ''notes'']" and rules = DEFAULT_RULES and unknown = "''others''"
      and ul = latin1_lower]
  note t3 = categorize_final_suffix [where stem = "''name.tar''" and e = "''GZ''"
      and path = "[''in'', ''photo.JPG'']" and rules = DEFAULT_RULES and unknown = "''others''"
      and ul = latin1_lower]
  note t4 = categorize_final_suffix [where stem = "''name.tar''" and e = "''GZ''"
      and path = "[''in'', ''x.tar.xz'']" and rules = DEFAULT_RULES and unknown = "''others''"
      and ul = latin1_lower]
  note t5 = categorize_final_suffix [where stem = "''x''" and e = "[CHR 0xC3, CHR 0x89]"
      and path = "[''in'', ''x.'' @ [CHR 0xC3, CHR 0x89]]" and rules = accent_rules
      and unknown = "''others''" and ul = latin1_lower]
  have a: "categorize latin1_lower [''in'', ''name.tar.GZ''] DEFAULT_RULES ''others'' = JStr ''archives''"
    using t1 n1 asc gz by simp
  have b: "categorize latin1_lower [''in'', ''notes''] DEFAULT_RULES ''others'' = JStr ''others''"
    using t2 n2 none by simp
  have c: "categorize latin1_lower [''in'', ''photo.JPG''] DEFAULT_RULES ''others'' = JStr ''images''"
    using t3 jpg by blast
  have d: "categorize latin1_lower [''in'', ''x.tar.xz''] DEFAULT_RULES ''others'' = JStr ''others''"
    using t4 xz by blast
  have e: "categorize latin1_lower [''in'', ''x.'' @ [CHR 0xC3, CHR 0x89]] accent_rules ''others''
       = JStr ''acc''"
    using t5 n3 acc by simp
  from a b c d e n1 n2 n3 asc jpg xz show ?thesis by simp
qed

lemma normalize_key_dot: "startswith (normalize_key ul k) ''.''"
  by (simp add: normalize_key_def Let_def startswith_def)

lemma fold_normalize_keys:
  "\<forall>k. acc k \<noteq> None \<longrightarrow> startswith k ''.'' \<Longrightarrow>
   fold (\<lambda>(k, v) normalized. normalized(normalize_key ul k \<mapsto> v)) items acc k' \<noteq> None \<Longrightarrow>
   startswith k' ''.''"
proof (induction items arbitrary: acc)
  case Nil
  then show ?case by simp
next
  case (Cons kv items)
  obtain k v where kv: "kv = (k, v)" by (cases kv)
  have "\<forall>x. (acc(normalize_key ul k \<mapsto> v)) x \<noteq> None \<longrightarrow> startswith x ''.''"
    using Cons.prems(1) normalize_key_dot by auto
  from Cons.IH [OF this] Cons.prems(2) kv show ?case by simp
qed

lemma normalize_items_keys: "normalize_items ul items k \<noteq> None \<Longrightarrow> startswith k ''.''"
  unfolding normalize_items_def by (rule fold_normalize_keys [of Map.empty]) simp_all

lemma DEFAULT_RULES_no_empty_key: "DEFAULT_RULES [] = None"
  by (simp add: DEFAULT_RULES_def DEFAULT_RULES_items_def)

lemma load_rules_no_empty_key: "load_rules ul fs rules_path = Inr rules \<Longrightarrow> rules [] = None"
proof (cases rules_path)
  case None
  assume "load_rules ul fs rules_path = Inr rules"
  with None show ?thesis by (simp add: load_rules_def DEFAULT_RULES_no_empty_key)
next
  case (Some p)
  assume "load_rules ul fs rules_path = Inr rules"
  with Some obtain items where "rules = normalize_items ul items"
    by (auto simp: load_rules_def split: sum.splits json.splits)
  moreover have "\<not> startswith [] ''.''" by (simp add: startswith_def)
  ultimately show ?thesis
    using normalize_items_keys [where items = items and k = "[]" and ul = ul]
    by (cases "rules []") auto
qed

text \<open>
  Claim C10. A file whose name starts with a dot and has no further dot (such as
  \<open>.env\<close>) has the empty extension, and no mapping that \<open>load_rules\<close> returns has the
  empty string as a key: the built-in table has none, and the keys of a loaded rules
  document all start with a dot after normalisation. So \<open>categorize\<close> gives every such
  file the unknown-folder fallback.
\<close>

theorem dotfile_goes_to_unknown:
  assumes "path_name path = CHR ''.'' # rest" and "CHR ''.'' \<notin> set rest"
    and "load_rules ul fs rules_path = Inr rules"
  shows "path_suffix (path_name path) = [] \<and> rules [] = None
         \<and> (\<forall>k. rules k \<noteq> None \<longrightarrow> startswith k ''.'')
         \<and> categorize ul path rules unknown = JStr unknown"
proof -
  from assms(2) have sfx: "path_suffix (path_name path) = []"
    unfolding assms(1) by (rule path_suffix_dotfile)
  from assms(3) have none: "rules [] = None" by (rule load_rules_no_empty_key)
  have keys: "\<forall>k. rules k \<noteq> None \<longrightarrow> startswith k ''.''"
  proof (cases rules_path)
    case None
    with assms(3) have "rules = DEFAULT_RULES" by (simp add: load_rules_def)
    then show ?thesis
      by (auto simp: DEFAULT_RULES_def DEFAULT_RULES_items_def startswith_def
          split: if_splits)
  next
    case (Some p)
    with assms(3) obtain items where "rules = normalize_items ul items"
      by (auto simp: load_rules_def split: sum.splits json.splits)
    then show ?thesis using normalize_items_keys by blast
  qed
  from sfx none have "categorize ul path rules unknown = JStr unknown"
    by (simp add: categorize_def lower_Nil)
  with sfx none keys show ?thesis by blast
qed

text \<open>
  A rules document with an empty key, an upper-case key and a padded key: they load as
  \<open>.\<close>, \<open>.env\<close> and \<open>.env\<close>, and \<open>.env\<close> the file still goes to the fallback.
\<close>

definition env_rules :: "(string \<times> json) list" where
  "env_rules = [([], JStr ''blank''), (''ENV'', JStr ''envs''), ('' .Env '', JStr ''dotenv'')]"

definition env_fs :: filesystem where
  "env_fs = [([''in''], Dir), ([''in'', ''.env''], File (Raw ''SECRET=1'')),
             ([''rules.json''], File (Json (JObj env_rules)))]"

theorem dotfile_goes_to_unknown_witness:
  "path_name [''in'', ''.env''] = CHR ''.'' # ''env'' \<and> CHR ''.'' \<notin> set ''env''
   \<and> load_rules latin1_lower env_fs (Some [''rules.json''])
       = Inr (normalize_items latin1_lower env_rules)
   \<and> normalize_items latin1_lower env_rules ''.'' = Some (JStr ''blank'')
   \<and> normalize_items latin1_lower env_rules ''.env'' = Some (JStr ''dotenv'')
   \<and> categorize latin1_lower [''in'', ''.env''] (normalize_items latin1_lower env_rules) ''others''
       = JStr ''others''"
proof -
  have a: "path_name [''in'', ''.env''] = CHR ''.'' # ''env''" by (simp add: path_name_def)
  have b: "CHR ''.'' \<notin> set ''env''" by simp
  have c: "load_rules latin1_lower env_fs (Some [''rules.json''])
       = Inr (normalize_items latin1_lower env_rules)"
    by (simp add: load_rules_def read_json_def lookup_def env_fs_def)
  have d: "normalize_items latin1_lower env_rules ''.'' = Some (JStr ''blank'')"
    by code_simp
  have e: "normalize_items latin1_lower env_rules ''.env'' = Some (JStr ''dotenv'')"
    by code_simp
  from dotfile_goes_to_unknown [OF a b c, where unknown = "''others''"] a b c d e
  show ?thesis by blast
qed


section \<open>Properties of \<open>apply_moves\<close>\<close>

lemma apply_loop_counts:
  "apply_loop ms ok failed errors fs = ((ok', failed', errors'), fs') \<Longrightarrow>
   ok' + failed' = ok + failed + length ms \<and> length errors' + failed = length errors + failed'"
proof (induction ms arbitrary: ok failed errors fs)
  case Nil
  then show ?case by simp
next
  case (Cons m ms)
  obtain r fs1 where mo: "move_one fs m = (r, fs1)" by (cases "move_one fs m")
  show ?case
  proof (cases r)
    case None
    with Cons.prems mo have "apply_loop ms (ok + 1) failed errors fs1 = ((ok', failed', errors'), fs')"
      by simp
    from Cons.IH [OF this] show ?thesis by simp
  next
    case (Some e)
    with Cons.prems mo
    have "apply_loop ms ok (failed + 1) (errors @ [failure_message m e]) fs1 = ((ok', failed', errors'), fs')"
      by simp
    from Cons.IH [OF this] show ?thesis by simp
  qed
qed

lemma apply_loop_snoc:
  "apply_loop (ms @ [m]) ok failed errors fs =
     (case apply_loop ms ok failed errors fs of
        ((ok', failed', errors'), fs') \<Rightarrow>
          (case move_one fs' m of
             (None, fs'') \<Rightarrow> ((ok' + 1, failed', errors'), fs'')
           | (Some e, fs'') \<Rightarrow> ((ok', failed' + 1, errors' @ [failure_message m e]), fs'')))"
proof (induction ms arbitrary: ok failed errors fs)
  case Nil
  show ?case by (simp split: prod.splits option.splits)
next
  case (Cons x ms)
  show ?case by (simp add: Cons.IH split: prod.splits option.splits)
qed

text \<open>
  Claim C9. For every plan list and filesystem, \<open>apply_moves\<close> works through the whole
  list: the counts it returns add up to the length of the list, and there is exactly one
  error string per failure. No failure stops the loop: whatever happened to the entries
  of \<open>moves\<close>, an entry \<open>m\<close> after them is attempted on the filesystem they left, and it
  either adds one success, or one failure with its own message
  \<open>Failed: src -> dst (error)\<close> at the end of the error list.
\<close>

theorem apply_moves_best_effort:
  assumes "apply_moves fs moves = ((ok, failed, errors), fs')"
  shows "ok + failed = length moves \<and> length errors = failed
         \<and> apply_moves fs (moves @ [m])
             = (case move_one fs' m of
                  (None, fs'') \<Rightarrow> ((ok + 1, failed, errors), fs'')
                | (Some e, fs'') \<Rightarrow> ((ok, failed + 1, errors @ [failure_message m e]), fs''))"
proof -
  from assms have run: "apply_loop moves 0 0 [] fs = ((ok, failed, errors), fs')"
    by (simp add: apply_moves_def)
  from apply_loop_counts [OF run] have "ok + failed = length moves" "length errors = failed"
    by simp_all
  moreover have "apply_moves fs (moves @ [m])
             = (case move_one fs' m of
                  (None, fs'') \<Rightarrow> ((ok + 1, failed, errors), fs'')
                | (Some e, fs'') \<Rightarrow> ((ok, failed + 1, errors @ [failure_message m e]), fs''))"
    unfolding apply_moves_def apply_loop_snoc run by simp
  ultimately show ?thesis by simp
qed

text \<open>
  A plan whose first source has vanished: the first entry fails, the second is moved
  all the same.
\<close>

definition vanished_fs :: filesystem where
  "vanished_fs = [([''in''], Dir), ([''in'', ''b.txt''], File (Raw ''b''))]"

theorem apply_moves_best_effort_witness:
  "apply_moves vanished_fs [MovePlan [''in'', ''a.txt''] [''in'', ''docs'', ''a.txt'']]
     = ((0, 1, [''Failed: /in/a.txt -> /in/docs/a.txt (No such file or directory)'']),
        [([''in''], Dir), ([''in'', ''b.txt''], File (Raw ''b'')), ([''in'', ''docs''], Dir)])
   \<and> apply_moves vanished_fs
        ([MovePlan [''in'', ''a.txt''] [''in'', ''docs'', ''a.txt'']]
         @ [MovePlan [''in'', ''b.txt''] [''in'', ''docs'', ''b.txt'']])
     = ((1, 1, [''Failed: /in/a.txt -> /in/docs/a.txt (No such file or directory)'']),
        [([''in''], Dir), ([''in'', ''docs''], Dir),
         ([''in'', ''docs'', ''b.txt''], File (Raw ''b''))])"
proof -
  have first: "apply_moves vanished_fs [MovePlan [''in'', ''a.txt''] [''in'', ''docs'', ''a.txt'']]
     = ((0, 1, [''Failed: /in/a.txt -> /in/docs/a.txt (No such file or directory)'']),
        [([''in''], Dir), ([''in'', ''b.txt''], File (Raw ''b'')), ([''in'', ''docs''], Dir)])"
    by code_simp
  have second: "move_one [([''in''], Dir), ([''in'', ''b.txt''], File (Raw ''b'')), ([''in'', ''docs''], Dir)]
        (MovePlan [''in'', ''b.txt''] [''in'', ''docs'', ''b.txt''])
     = (None, [([''in''], Dir), ([''in'', ''docs''], Dir),
               ([''in'', ''docs'', ''b.txt''], File (Raw ''b''))])"
    by code_simp
  from apply_moves_best_effort [OF first, of "MovePlan [''in'', ''b.txt''] [''in'', ''docs'', ''b.txt'']"]
  have "apply_moves vanished_fs
        ([MovePlan [''in'', ''a.txt''] [''in'', ''docs'', ''a.txt'']]
         @ [MovePlan [''in'', ''b.txt''] [''in'', ''docs'', ''b.txt'']])
     = ((1, 1, [''Failed: /in/a.txt -> /in/docs/a.txt (No such file or directory)'']),
        [([''in''], Dir), ([''in'', ''docs''], Dir),
         ([''in'', ''docs'', ''b.txt''], File (Raw ''b''))])"
    unfolding second by simp
  with first show ?thesis by simp
qed


section \<open>Properties of \<open>iter_files\<close>\<close>

lemma startswith_dot: "startswith s ''.'' = (s \<noteq> [] \<and> hd s = CHR ''.'')"
  by (cases s) (auto simp: startswith_def)

lemma contains_no_slash: "CHR ''/'' \<notin> set x \<Longrightarrow> \<not> contains ''/.'' x"
  by (induction x) (auto simp: startswith_def)

lemma contains_across:
  "CHR ''/'' \<notin> set x \<Longrightarrow>
   contains ''/.'' (x @ CHR ''/'' # r) = (startswith r ''.'' \<or> contains ''/.'' r)"
  by (induction x) (auto simp: startswith_def take_Suc split: list.splits)

lemma join_nonempty: "x \<noteq> [] \<Longrightarrow> join sep (x # xs) \<noteq> []"
  by (cases xs) auto

lemma startswith_join:
  "x \<noteq> [] \<Longrightarrow> startswith (join ''/'' (x # xs)) ''.'' = startswith x ''.''"
  by (cases xs) (auto simp: startswith_dot)

lemma contains_join:
  "list_all valid_name segs \<Longrightarrow> segs \<noteq> [] \<Longrightarrow>
   contains ''/.'' (join ''/'' segs) = list_ex (\<lambda>s. startswith s ''.'') (tl segs)"
proof (induction segs rule: induct_list012)
  case 1
  then show ?case by simp
next
  case (2 x)
  then show ?case by (simp add: contains_no_slash valid_name_def)
next
  case (3 x y ys)
  from "3.prems" have rest: "list_all valid_name (y # ys)" by simp
  from "3.prems" have "valid_name x" "valid_name y" by simp_all
  then have x: "CHR ''/'' \<notin> set x" and y: "y \<noteq> []"
    by (simp_all add: valid_name_def)
  have "contains ''/.'' (join ''/'' (x # y # ys))
      = (startswith (join ''/'' (y # ys)) ''.'' \<or> contains ''/.'' (join ''/'' (y # ys)))"
    using contains_across [OF x, of "join ''/'' (y # ys)"] by simp
  also have "\<dots> = (startswith y ''.'' \<or> list_ex (\<lambda>s. startswith s ''.'') (tl (y # ys)))"
    using "3.IH"(2) [OF rest] startswith_join [OF y, of ys] by simp
  finally show ?case by simp
qed

lemma hidden_search_segments:
  assumes "list_all valid_name segs" and "segs \<noteq> []"
  shows "HIDDEN_PATTERN_search (str_relative segs) = list_ex (\<lambda>s. startswith s ''.'') segs"
proof -
  obtain x xs where segs: "segs = x # xs" using assms(2) by (cases segs) auto
  with assms(1) have x: "x \<noteq> []" by (simp add: valid_name_def)
  have "HIDDEN_PATTERN_search (str_relative segs)
      = (startswith (join ''/'' segs) ''.'' \<or> contains ''/.'' (join ''/'' segs))"
    using assms(2) by (simp add: HIDDEN_PATTERN_search_def str_relative_def)
  also have "\<dots> = (startswith x ''.'' \<or> list_ex (\<lambda>s. startswith s ''.'') xs)"
    using contains_join [OF assms] startswith_join [OF x, of xs] segs by simp
  finally show ?thesis using segs by simp
qed


lemma valid_paths:
  "list_all (\<lambda>e. list_all valid_name (fst e)) fs \<Longrightarrow> p \<in> set (paths fs) \<Longrightarrow> list_all valid_name p"
  by (auto simp: paths_def list_all_iff)

lemma in_rglob: "p \<in> set (rglob fs root) \<Longrightarrow> p \<in> set (paths fs) \<and> length root < length p"
  by (auto simp: rglob_def split: if_splits)

lemma hidden_search_relative:
  assumes "list_all (\<lambda>e. list_all valid_name (fst e)) fs" and "p \<in> set (rglob fs root)"
  shows "HIDDEN_PATTERN_search (str_relative (relative_to p root))
         = list_ex (\<lambda>s. startswith s ''.'') (relative_to p root)"
proof (rule hidden_search_segments)
  from in_rglob [OF assms(2)] have p: "p \<in> set (paths fs)" and len: "length root < length p"
    by simp_all
  from valid_paths [OF assms(1) p] have "list_all valid_name p" .
  then show "list_all valid_name (relative_to p root)"
    by (auto simp: relative_to_def list_all_iff dest: in_set_dropD)
  from len show "relative_to p root \<noteq> []" by (simp add: relative_to_def)
qed

text \<open>
  Claim C5. For every root and every filesystem whose path components are names,
  with include-hidden off the recursive enumerator yields exactly the regular files
  below the root none of whose path segments relative to the root starts with a dot
  (the pattern is searched in the string of the relative path), and the flat enumerator
  yields exactly the regular files directly in the root whose own name does not start
  with a dot; in both modes no yielded file has a name starting with a dot. With
  include-hidden on, every regular file in scope is yielded.
\<close>

theorem iter_files_hidden_filter:
  assumes "list_all (\<lambda>e. list_all valid_name (fst e)) fs"
  shows "iter_files fs root True False
           = Inr (filter (\<lambda>p. is_file fs p
                     \<and> \<not> list_ex (\<lambda>seg. startswith seg ''.'') (relative_to p root))
                   (rglob fs root))
       \<and> iter_files fs root True True = Inr (filter (is_file fs) (rglob fs root))
       \<and> (is_dir fs root \<longrightarrow>
            iter_files fs root False False
              = Inr (filter (\<lambda>p. is_file fs p \<and> \<not> startswith (path_name p) ''.'') (iterdir fs root))
          \<and> iter_files fs root False True = Inr (filter (is_file fs) (iterdir fs root)))
       \<and> (\<forall>recursive files p. iter_files fs root recursive False = Inr files \<and> p \<in> set files
             \<longrightarrow> \<not> startswith (path_name p) ''.'')"
proof -
  have rec: "iter_files fs root True False
           = Inr (filter (\<lambda>p. is_file fs p
                     \<and> \<not> list_ex (\<lambda>seg. startswith seg ''.'') (relative_to p root))
                   (rglob fs root))"
    unfolding iter_files_def using hidden_search_relative [OF assms, of _ root]
    by (auto intro: filter_cong)
  have rec_all: "iter_files fs root True True = Inr (filter (is_file fs) (rglob fs root))"
    by (simp add: iter_files_def)
  have flat: "is_dir fs root \<longrightarrow>
            iter_files fs root False False
              = Inr (filter (\<lambda>p. is_file fs p \<and> \<not> startswith (path_name p) ''.'') (iterdir fs root))
          \<and> iter_files fs root False True = Inr (filter (is_file fs) (iterdir fs root))"
    by (simp add: iter_files_def)
  have own: "\<not> startswith (path_name p) ''.''"
    if run: "iter_files fs root recursive False = Inr files" and p: "p \<in> set files"
    for recursive files p
  proof (cases recursive)
    case True
    with run rec p have p_in: "p \<in> set (rglob fs root)"
      and vis: "\<not> list_ex (\<lambda>seg. startswith seg ''.'') (relative_to p root)"
      by auto
    from in_rglob [OF p_in] have "length root < length p" by simp
    then have ne: "relative_to p root \<noteq> []"
      and "last (relative_to p root) = path_name p"
      by (auto simp: relative_to_def path_name_def)
    with last_in_set [OF ne] have "path_name p \<in> set (relative_to p root)" by simp
    with vis show ?thesis by (auto simp: list_ex_iff)
  next
    case False
    with run p show ?thesis by (auto simp: iter_files_def split: if_splits)
  qed
  from rec rec_all flat own show ?thesis by blast
qed


text \<open>
  A tree with a hidden file, a hidden directory and hidden entries further down.
\<close>

definition hidden_fs :: filesystem where
  "hidden_fs =
     [([''in''], Dir), ([''in'', ''.env''], File (Raw ''e'')), ([''in'', ''a.txt''], File (Raw ''a'')),
      ([''in'', ''.git''], Dir), ([''in'', ''.git'', ''config''], File (Raw ''g'')),
      ([''in'', ''sub''], Dir), ([''in'', ''sub'', ''.hidden.txt''], File (Raw ''h'')),
      ([''in'', ''sub'', ''b.txt''], File (Raw ''b'')), ([''in'', ''sub'', ''.cache''], Dir),
      ([''in'', ''sub'', ''.cache'', ''c.txt''], File (Raw ''c''))]"

theorem iter_files_hidden_filter_witness:
  "list_all (\<lambda>e. list_all valid_name (fst e)) hidden_fs
   \<and> iter_files hidden_fs [''in''] True False = Inr [[''in'', ''a.txt''], [''in'', ''sub'', ''b.txt'']]
   \<and> iter_files hidden_fs [''in''] True True
       = Inr [[''in'', ''.env''], [''in'', ''a.txt''], [''in'', ''.git'', ''config''],
              [''in'', ''sub'', ''.hidden.txt''], [''in'', ''sub'', ''b.txt''],
              [''in'', ''sub'', ''.cache'', ''c.txt'']]
   \<and> is_dir hidden_fs [''in'']
   \<and> iter_files hidden_fs [''in''] False False = Inr [[''in'', ''a.txt'']]
   \<and> iter_files hidden_fs [''in''] False True = Inr [[''in'', ''.env''], [''in'', ''a.txt'']]"
proof -
  have valid: "list_all (\<lambda>e. list_all valid_name (fst e)) hidden_fs" by code_simp
  have dir: "is_dir hidden_fs [''in'']" by code_simp
  have a: "filter (\<lambda>p. is_file hidden_fs p
                     \<and> \<not> list_ex (\<lambda>seg. startswith seg ''.'') (relative_to p [''in'']))
                   (rglob hidden_fs [''in''])
           = [[''in'', ''a.txt''], [''in'', ''sub'', ''b.txt'']]"
    by code_simp
  have b: "filter (is_file hidden_fs) (rglob hidden_fs [''in''])
       = [[''in'', ''.env''], [''in'', ''a.txt''], [''in'', ''.git'', ''config''],
              [''in'', ''sub'', ''.hidden.txt''], [''in'', ''sub'', ''b.txt''],
              [''in'', ''sub'', ''.cache'', ''c.txt'']]"
    by code_simp
  have c: "filter (\<lambda>p. is_file hidden_fs p \<and> \<not> startswith (path_name p) ''.'') (iterdir hidden_fs [''in''])
       = [[''in'', ''a.txt'']]"
    by code_simp
  have d: "filter (is_file hidden_fs) (iterdir hidden_fs [''in''])
       = [[''in'', ''.env''], [''in'', ''a.txt'']]"
    by code_simp
  from iter_files_hidden_filter [OF valid, of "[''in'']"] dir valid show ?thesis
    unfolding a b c d by blast
qed



section \<open>What planning changes\<close>

text \<open>
  Planning creates target directories and nothing else: every path keeps its node, or
  did not exist and is a directory now.
\<close>

definition only_adds_directories :: "filesystem \<Rightarrow> filesystem \<Rightarrow> bool" where
  "only_adds_directories fs fs' =
     (\<forall>p. lookup fs' p = lookup fs p \<or> (lookup fs p = None \<and> lookup fs' p = Some Dir))"

lemma only_adds_refl: "only_adds_directories fs fs"
  by (simp add: only_adds_directories_def)

lemma only_adds_trans:
  "only_adds_directories fs fs1 \<Longrightarrow> only_adds_directories fs1 fs2 \<Longrightarrow> only_adds_directories fs fs2"
  unfolding only_adds_directories_def by (metis option.distinct(1))

lemma os_mkdir_adds: "os_mkdir fs p = Inr fs' \<Longrightarrow> only_adds_directories fs fs'"
  by (auto simp: os_mkdir_def only_adds_directories_def lookup_def exists_def map_add_def
      split: if_splits option.splits)

lemma mkdir_adds: "only_adds_directories fs (snd (mkdir fs p))"
proof (induction fs p rule: mkdir.induct)
  case (1 fs p)
  show ?case
  proof (cases "os_mkdir fs p")
    case (Inr fs')
    then show ?thesis by (simp add: mkdir.simps [of fs p] os_mkdir_adds)
  next
    case (Inl e)
    show ?thesis
    proof (cases "e = FileNotFoundError \<and> path_parent p \<noteq> p")
      case False
      with Inl show ?thesis by (auto simp: mkdir.simps [of fs p] only_adds_refl)
    next
      case True
      with Inl "1.IH" have ih: "only_adds_directories fs (snd (mkdir fs (path_parent p)))" by simp
      obtain r fs1 where par: "mkdir fs (path_parent p) = (r, fs1)"
        by (cases "mkdir fs (path_parent p)")
      with ih have g1: "only_adds_directories fs fs1" by simp
      show ?thesis
      proof (cases r)
        case (Some e')
        with Inl True par g1 show ?thesis by (simp add: mkdir.simps [of fs p])
      next
        case None
        show ?thesis
        proof (cases "os_mkdir fs1 p")
          case (Inr fs2)
          from os_mkdir_adds [OF Inr] g1 have "only_adds_directories fs fs2"
            by (blast intro: only_adds_trans)
          with Inl True par None Inr show ?thesis by (simp add: mkdir.simps [of fs p])
        next
          case again: (Inl e')
          with Inl True par None g1 show ?thesis by (simp add: mkdir.simps [of fs p])
        qed
      qed
    qed
  qed
qed

lemma plan_loop_adds: "only_adds_directories fs (snd (plan_loop ul dest rules unknown_folder files moves fs))"
proof (induction files arbitrary: moves fs)
  case Nil
  show ?case by (simp add: only_adds_refl)
next
  case (Cons x files)
  show ?case
  proof (cases "categorize ul x rules unknown_folder")
    case (JStr category)
    obtain r fs1 where mk: "mkdir fs (joinpath dest category) = (r, fs1)"
      by (cases "mkdir fs (joinpath dest category)")
    with mkdir_adds [of fs "joinpath dest category"] have g1: "only_adds_directories fs fs1" by simp
    show ?thesis
    proof (cases r)
      case (Some e)
      with JStr mk g1 show ?thesis by simp
    next
      case None
      have "only_adds_directories fs (snd (plan_loop ul dest rules unknown_folder files ms fs1))" for ms
        using g1 Cons.IH [where moves = ms and fs = fs1] by (rule only_adds_trans)
      with JStr mk None show ?thesis by (simp add: Let_def)
    qed
  next
    case (JObj items)
    then show ?thesis by (simp add: only_adds_refl)
  next
    case JOther
    then show ?thesis by (simp add: only_adds_refl)
  qed
qed

lemma plan_moves_adds:
  "only_adds_directories fs (snd (plan_moves ul fs source dest recursive include_hidden rules unknown_folder))"
  by (simp add: plan_moves_def plan_loop_adds only_adds_refl split: sum.split)


section \<open>What a plan holds\<close>

text \<open>
  \<open>unique_destination\<close> never returns a path that exists. The files \<open>iter_files\<close>
  yields exist, so the test of \<open>plan_moves\<close> that skips a file whose destination is
  its own path never succeeds: a plan holds one entry for each enumerated file, in
  order, and no destination in it is a regular file, neither before nor after planning.
\<close>

lemma unique_destination_free: "\<not> exists fs (unique_destination fs dst_dir name)"
proof (cases "exists fs (dst_dir @ [name])")
  case False
  then show ?thesis by (simp add: unique_destination_def)
next
  case True
  from unique_destination_loop_spec [of 2 fs dst_dir "path_stem name" "path_suffix name"]
  obtain k where
    "unique_destination_loop fs dst_dir (path_stem name) (path_suffix name) 2
       = dst_dir @ [numbered_name (path_stem name) (path_suffix name) k]"
    "\<not> exists fs (dst_dir @ [numbered_name (path_stem name) (path_suffix name) k])"
    by blast
  with True show ?thesis by (simp add: unique_destination_def)
qed

lemma only_addsD:
  "only_adds_directories fs fs' \<Longrightarrow>
   lookup fs' p = lookup fs p \<or> (lookup fs p = None \<and> lookup fs' p = Some Dir)"
  by (simp add: only_adds_directories_def)

lemma only_adds_exists: "only_adds_directories fs fs' \<Longrightarrow> exists fs p \<Longrightarrow> exists fs' p"
  using only_addsD [of fs fs' p] by (auto simp: exists_def)

lemma only_adds_file_back: "only_adds_directories fs fs' \<Longrightarrow> is_file fs p \<Longrightarrow> is_file fs' p"
  using only_addsD [of fs fs' p] by (auto simp: is_file_def)

lemma only_adds_free:
  "only_adds_directories fs fs' \<Longrightarrow> \<not> exists fs p \<Longrightarrow> \<not> is_file fs' p"
  using only_addsD [of fs fs' p] by (auto simp: exists_def is_file_def)

lemma not_exists_not_file: "\<not> exists fs p \<Longrightarrow> \<not> is_file fs p"
  by (auto simp: exists_def is_file_def)

lemma plan_loop_entries:
  assumes "list_all (exists fs) files"
    and "plan_loop ul dest rules unknown_folder files moves fs = (Inr result, fs')"
  shows "\<exists>new. result = moves @ new \<and> map src new = files
           \<and> list_all (\<lambda>m. \<not> is_file fs (dst m) \<and> \<not> is_file fs' (dst m)) new"
  using assms
proof (induction files arbitrary: moves fs)
  case Nil
  then show ?case by simp
next
  case (Cons x files)
  from Cons.prems(2) obtain category where cat: "categorize ul x rules unknown_folder = JStr category"
    by (cases "categorize ul x rules unknown_folder") simp_all
  let ?target = "joinpath dest category"
  obtain r fs1 where mk: "mkdir fs ?target = (r, fs1)" by (cases "mkdir fs ?target")
  with Cons.prems(2) cat have ok: "r = None" by (cases r) (simp_all add: Let_def)
  from mk mkdir_adds [of fs ?target] have g1: "only_adds_directories fs fs1" by simp
  let ?d = "unique_destination fs1 ?target (path_name x)"
  have free: "\<not> exists fs1 ?d" by (rule unique_destination_free)
  from Cons.prems(1) g1 have "exists fs1 x" by (auto intro: only_adds_exists)
  with free have ne: "x \<noteq> ?d" by auto
  from Cons.prems(2) cat mk ok ne
  have rest: "plan_loop ul dest rules unknown_folder files (moves @ [MovePlan x ?d]) fs1 = (Inr result, fs')"
    by (simp add: Let_def resolve_def)
  from Cons.prems(1) g1 have all1: "list_all (exists fs1) files"
    by (auto simp: list_all_iff intro: only_adds_exists)
  from Cons.IH [OF all1 rest] obtain new where new: "result = (moves @ [MovePlan x ?d]) @ new"
    "map src new = files"
    "list_all (\<lambda>m. \<not> is_file fs1 (dst m) \<and> \<not> is_file fs' (dst m)) new"
    by blast
  from plan_loop_adds [where fs = fs1 and dest = dest and rules = rules
      and unknown_folder = unknown_folder and files = files
      and moves = "moves @ [MovePlan x ?d]" and ul = ul] rest
  have g2: "only_adds_directories fs1 fs'" by simp
  have "\<not> is_file fs1 ?d" using free by (rule not_exists_not_file)
  with g1 have "\<not> is_file fs ?d" by (auto dest: only_adds_file_back)
  moreover from g2 free have "\<not> is_file fs' ?d" by (rule only_adds_free)
  ultimately have head: "\<not> is_file fs ?d \<and> \<not> is_file fs' ?d" by simp
  have tail: "list_all (\<lambda>m. \<not> is_file fs (dst m) \<and> \<not> is_file fs' (dst m)) new"
    using new(3) g1 by (auto simp: list_all_iff dest: only_adds_file_back)
  from new(1,2) head tail show ?case
    by (intro exI [of _ "MovePlan x ?d # new"]) simp
qed

lemma iter_files_exist: "iter_files fs source recursive include_hidden = Inr files \<Longrightarrow> list_all (exists fs) files"
  by (auto simp: iter_files_def list_all_iff is_file_def exists_def split: if_splits option.splits)

lemma plan_moves_entries:
  assumes "iter_files fs source recursive include_hidden = Inr files"
    and "plan_moves ul fs source dest recursive include_hidden rules unknown_folder = (Inr moves, fs')"
  shows "map src moves = files
         \<and> list_all (\<lambda>m. \<not> is_file fs (dst m) \<and> \<not> is_file fs' (dst m)) moves"
proof -
  from assms have "plan_loop ul dest rules unknown_folder files [] fs = (Inr moves, fs')"
    by (simp add: plan_moves_def)
  from plan_loop_entries [OF iter_files_exist [OF assms(1)] this] show ?thesis by auto
qed


section \<open>Dry run\<close>

text \<open>
  A source directory holding one file, organized in place, and two more dry-run
  command lines: one that also asks for the default rules to be written into the
  source directory, one whose source does not exist. The last filesystem is a source
  directory without files.
\<close>

definition dry_fs :: filesystem where
  "dry_fs = [([''in''], Dir), ([''in'', ''report.pdf''], File (Raw ''pdf''))]"

definition dry_args :: args where
  "dry_args = \<lparr>arg_source = [''in''], arg_dest = None, arg_rules = None,
     arg_unknown_folder = ''others'', arg_recursive = False, arg_include_hidden = False,
     arg_dry_run = True, arg_yes = False, arg_write_default_rules = None\<rparr>"

definition dry_rules_args :: args where
  "dry_rules_args = dry_args\<lparr>arg_write_default_rules := Some [''in'', ''rules.json'']\<rparr>"

definition dry_missing_args :: args where
  "dry_missing_args = dry_args\<lparr>arg_source := [''missing'']\<rparr>"

definition empty_fs :: filesystem where
  "empty_fs = [([''in''], Dir)]"

text \<open>
  Claim C3, as stated, fails. With \<open>--write-default-rules\<close>, \<open>main\<close> writes the
  rules file and returns before it looks at \<open>--dry-run\<close>: after the run the source
  tree holds a regular file that was not there before, and no plan was printed. A dry
  run whose source is not a directory exits with status 1, not 0. And a dry run that
  finds no file exits 0 after \<open>Nothing to do\<close>, without printing a plan.
\<close>

theorem dry_run_writes_rules_or_fails:
  "arg_dry_run dry_rules_args
   \<and> \<not> exists dry_fs [''in'', ''rules.json'']
   \<and> main latin1_lower dry_rules_args None dry_fs
       = (0, [Stdout ''Wrote default rules to /in/rules.json''],
          [([''in''], Dir), ([''in'', ''report.pdf''], File (Raw ''pdf'')),
           ([''in'', ''rules.json''], File (Json DEFAULT_RULES_json))])
   \<and> \<not> only_adds_directories dry_fs (snd (snd (main latin1_lower dry_rules_args None dry_fs)))
   \<and> arg_dry_run dry_missing_args
   \<and> main latin1_lower dry_missing_args None dry_fs
       = (1, [Stderr ''Error: source not found or not a directory: /missing''], dry_fs)
   \<and> main latin1_lower dry_args None empty_fs = (0, [Stdout nothing_text], empty_fs)"
proof -
  have empty_run: "main latin1_lower dry_args None empty_fs = (0, [Stdout nothing_text], empty_fs)"
    by code_simp
  have flags: "arg_dry_run dry_rules_args" "arg_dry_run dry_missing_args"
    by (simp_all add: dry_rules_args_def dry_missing_args_def dry_args_def)
  have free: "\<not> exists dry_fs [''in'', ''rules.json'']" by code_simp
  have run: "main latin1_lower dry_rules_args None dry_fs
       = (0, [Stdout ''Wrote default rules to /in/rules.json''],
          [([''in''], Dir), ([''in'', ''report.pdf''], File (Raw ''pdf'')),
           ([''in'', ''rules.json''], File (Json DEFAULT_RULES_json))])"
    by code_simp
  have fail: "main latin1_lower dry_missing_args None dry_fs
       = (1, [Stderr ''Error: source not found or not a directory: /missing''], dry_fs)"
    by code_simp
  have "\<not> only_adds_directories dry_fs
       [([''in''], Dir), ([''in'', ''report.pdf''], File (Raw ''pdf'')),
        ([''in'', ''rules.json''], File (Json DEFAULT_RULES_json))]"
  proof
    assume "only_adds_directories dry_fs
       [([''in''], Dir), ([''in'', ''report.pdf''], File (Raw ''pdf'')),
        ([''in'', ''rules.json''], File (Json DEFAULT_RULES_json))]"
    from only_addsD [OF this, of "[''in'', ''rules.json'']"] show False
      by (simp add: lookup_def dry_fs_def)
  qed
  with flags free run fail empty_run show ?thesis by simp
qed

lemma main_organize:
  "arg_write_default_rules a = None \<Longrightarrow> is_dir fs (arg_source a) \<Longrightarrow>
   main ul a stdin fs
     = (case load_rules ul fs (arg_rules a) of
          Inl e \<Rightarrow> (1, [Stderr (error_text e)], fs)
        | Inr rules \<Rightarrow>
            (case plan_moves ul fs (arg_source a)
                    (case arg_dest a of Some d \<Rightarrow> d | None \<Rightarrow> arg_source a)
                    (arg_recursive a) (arg_include_hidden a) rules (arg_unknown_folder a) of
               (Inl e, fs') \<Rightarrow> (1, [Stderr (error_text e)], fs')
             | (Inr moves, fs') \<Rightarrow> organize ul a stdin moves fs'))"
  by (simp add: main_def resolve_def Let_def exists_def is_dir_def)

lemma main_no_source:
  "arg_write_default_rules a = None \<Longrightarrow> \<not> is_dir fs (arg_source a) \<Longrightarrow>
   main ul a stdin fs
     = (1, [Stderr (''Error: source not found or not a directory: '' @ str_path (arg_source a))], fs)"
  by (simp add: main_def resolve_def Let_def)

text \<open>
  Claim C3, amended. For every invocation with \<open>--dry-run\<close> and without
  \<open>--write-default-rules\<close>, no file is moved and the Mover is never run: every path
  that existed keeps its node (so every regular file keeps its place and its
  content), and whatever is new is a directory, created by planning. When the source
  is a directory, the rules load and planning raises no error, the process exits 0
  after printing the plan and the dry-run notice (after \<open>Nothing to do\<close> when the
  plan is empty) and leaves the filesystem as planning left it. In every other case
  (the source is not a directory, the rules do not load, or planning raises) it exits
  with status 1.
\<close>

theorem dry_run_moves_no_file:
  assumes "arg_dry_run a" and "arg_write_default_rules a = None"
  shows "only_adds_directories fs (snd (snd (main ul a stdin fs)))
         \<and> (\<forall>rules moves fs1.
               is_dir fs (arg_source a) \<and> load_rules ul fs (arg_rules a) = Inr rules
               \<and> plan_moves ul fs (arg_source a)
                     (case arg_dest a of Some d \<Rightarrow> d | None \<Rightarrow> arg_source a)
                     (arg_recursive a) (arg_include_hidden a) rules (arg_unknown_folder a)
                   = (Inr moves, fs1)
               \<longrightarrow> main ul a stdin fs
                     = (0, if moves = [] then [Stdout nothing_text]
                           else [Stdout (human_preview moves 50), Stdout dry_run_text], fs1))
         \<and> (\<not> is_dir fs (arg_source a) \<longrightarrow> fst (main ul a stdin fs) = 1)
         \<and> (\<forall>e. load_rules ul fs (arg_rules a) = Inl e \<longrightarrow> fst (main ul a stdin fs) = 1)
         \<and> (\<forall>rules e fs1.
               load_rules ul fs (arg_rules a) = Inr rules
               \<and> plan_moves ul fs (arg_source a)
                     (case arg_dest a of Some d \<Rightarrow> d | None \<Rightarrow> arg_source a)
                     (arg_recursive a) (arg_include_hidden a) rules (arg_unknown_folder a)
                   = (Inl e, fs1)
               \<longrightarrow> fst (main ul a stdin fs) = 1)"
proof -
  let ?dest = "case arg_dest a of Some d \<Rightarrow> d | None \<Rightarrow> arg_source a"
  have org: "organize ul a stdin moves fs1
      = (0, if moves = [] then [Stdout nothing_text]
            else [Stdout (human_preview moves 50), Stdout dry_run_text], fs1)"
    for moves fs1
    using assms(1) by (simp add: organize_def)
  have frame: "only_adds_directories fs (snd (snd (main ul a stdin fs)))"
  proof (cases "is_dir fs (arg_source a)")
    case False
    with assms(2) show ?thesis by (simp add: main_no_source only_adds_refl)
  next
    case True
    note unfolded = main_organize [OF assms(2) True, of ul stdin]
    show ?thesis
    proof (cases "load_rules ul fs (arg_rules a)")
      case (Inl e)
      then show ?thesis unfolding unfolded by (simp add: only_adds_refl)
    next
      case (Inr rules)
      obtain r fs1 where pl: "plan_moves ul fs (arg_source a) ?dest (arg_recursive a)
          (arg_include_hidden a) rules (arg_unknown_folder a) = (r, fs1)"
        by (cases "plan_moves ul fs (arg_source a) ?dest (arg_recursive a)
          (arg_include_hidden a) rules (arg_unknown_folder a)")
      with plan_moves_adds [where fs = fs and source = "arg_source a" and dest = ?dest
          and recursive = "arg_recursive a" and include_hidden = "arg_include_hidden a"
          and rules = rules and unknown_folder = "arg_unknown_folder a" and ul = ul]
      have g: "only_adds_directories fs fs1" by simp
      show ?thesis
      proof (cases r)
        case (Inl e)
        with Inr pl g show ?thesis unfolding unfolded by simp
      next
        case moves: (Inr moves)
        with Inr pl g show ?thesis unfolding unfolded by (simp add: org)
      qed
    qed
  qed
  have ok_run: "main ul a stdin fs
      = (0, if moves = [] then [Stdout nothing_text]
            else [Stdout (human_preview moves 50), Stdout dry_run_text], fs1)"
    if "is_dir fs (arg_source a)" and "load_rules ul fs (arg_rules a) = Inr rules"
      and "plan_moves ul fs (arg_source a) ?dest (arg_recursive a) (arg_include_hidden a) rules
             (arg_unknown_folder a) = (Inr moves, fs1)"
    for rules moves fs1
    using that by (simp add: main_organize [OF assms(2)] org)
  have nodir: "fst (main ul a stdin fs) = 1" if "\<not> is_dir fs (arg_source a)"
    using that assms(2) by (simp add: main_no_source)
  have norules: "fst (main ul a stdin fs) = 1" if "load_rules ul fs (arg_rules a) = Inl e" for e
  proof (cases "is_dir fs (arg_source a)")
    case True
    with that show ?thesis by (simp add: main_organize [OF assms(2)])
  next
    case False
    then show ?thesis by (rule nodir)
  qed
  have noplan: "fst (main ul a stdin fs) = 1"
    if "load_rules ul fs (arg_rules a) = Inr rules"
      and "plan_moves ul fs (arg_source a) ?dest (arg_recursive a) (arg_include_hidden a) rules
             (arg_unknown_folder a) = (Inl e, fs1)"
    for rules e fs1
  proof (cases "is_dir fs (arg_source a)")
    case True
    with that show ?thesis by (simp add: main_organize [OF assms(2)])
  next
    case False
    then show ?thesis by (rule nodir)
  qed
  from frame ok_run nodir norules noplan show ?thesis by blast
qed

text \<open>
  The dry run of the directory above prints its plan and exits 0; it has created
  \<open>/in/docs\<close> and touched nothing else. The dry run of a missing source exits 1.
\<close>

theorem dry_run_moves_no_file_witness:
  "arg_dry_run dry_args \<and> arg_write_default_rules dry_args = None
   \<and> is_dir dry_fs (arg_source dry_args)
   \<and> load_rules latin1_lower dry_fs (arg_rules dry_args) = Inr DEFAULT_RULES
   \<and> main latin1_lower dry_args None dry_fs
       = (0, [Stdout (human_preview [MovePlan [''in'', ''report.pdf''] [''in'', ''docs'', ''report.pdf'']] 50),
              Stdout dry_run_text],
          [([''in''], Dir), ([''in'', ''report.pdf''], File (Raw ''pdf'')), ([''in'', ''docs''], Dir)])
   \<and> only_adds_directories dry_fs (snd (snd (main latin1_lower dry_args None dry_fs)))
   \<and> arg_dry_run dry_missing_args \<and> arg_write_default_rules dry_missing_args = None
   \<and> \<not> is_dir dry_fs (arg_source dry_missing_args)
   \<and> fst (main latin1_lower dry_missing_args None dry_fs) = 1"
proof -
  have dry: "arg_dry_run dry_args" and nowrite: "arg_write_default_rules dry_args = None"
    by (simp_all add: dry_args_def)
  have dry': "arg_dry_run dry_missing_args"
    and nowrite': "arg_write_default_rules dry_missing_args = None"
    by (simp_all add: dry_missing_args_def dry_args_def)
  have dir: "is_dir dry_fs (arg_source dry_args)" by code_simp
  have nodir: "\<not> is_dir dry_fs (arg_source dry_missing_args)" by code_simp
  have rules: "load_rules latin1_lower dry_fs (arg_rules dry_args) = Inr DEFAULT_RULES"
    by (simp add: load_rules_def dry_args_def)
  have plan: "plan_moves latin1_lower dry_fs (arg_source dry_args)
        (case arg_dest dry_args of Some d \<Rightarrow> d | None \<Rightarrow> arg_source dry_args)
        (arg_recursive dry_args) (arg_include_hidden dry_args) DEFAULT_RULES
        (arg_unknown_folder dry_args)
      = (Inr [MovePlan [''in'', ''report.pdf''] [''in'', ''docs'', ''report.pdf'']],
         [([''in''], Dir), ([''in'', ''report.pdf''], File (Raw ''pdf'')), ([''in'', ''docs''], Dir)])"
    by code_simp
  note t = dry_run_moves_no_file [OF dry nowrite, where fs = dry_fs and stdin = None
      and ul = latin1_lower]
  note t' = dry_run_moves_no_file [OF dry' nowrite', where fs = dry_fs and stdin = None
      and ul = latin1_lower]
  from t dir rules plan
  have run: "main latin1_lower dry_args None dry_fs
       = (0, [Stdout (human_preview [MovePlan [''in'', ''report.pdf''] [''in'', ''docs'', ''report.pdf'']] 50),
              Stdout dry_run_text],
          [([''in''], Dir), ([''in'', ''report.pdf''], File (Raw ''pdf'')), ([''in'', ''docs''], Dir)])"
    by force
  from t have frame: "only_adds_directories dry_fs (snd (snd (main latin1_lower dry_args None dry_fs)))"
    by blast
  from t' nodir have "fst (main latin1_lower dry_missing_args None dry_fs) = 1" by blast
  with run frame dry nowrite dry' nowrite' dir nodir rules show ?thesis by blast
qed


section \<open>Confirmation\<close>

definition ask_args :: args where
  "ask_args = \<lparr>arg_source = [''in''], arg_dest = Some [''out''], arg_rules = None,
     arg_unknown_folder = ''others'', arg_recursive = False, arg_include_hidden = False,
     arg_dry_run = False, arg_yes = False, arg_write_default_rules = None\<rparr>"

text \<open>
  Claim C7, as stated, fails: the answer is compared after \<open>strip()\<close> and \<open>lower()\<close>,
  so an answer other than \<open>y\<close> and \<open>Y\<close> can be affirmative. The padded answer
  \<open>" Y "\<close>, and \<open>y\<close> followed by a no-break space (U+00A0), do not abort: the file is
  moved.
\<close>

theorem padded_answer_proceeds:
  "'' Y '' \<noteq> ''y'' \<and> '' Y '' \<noteq> ''Y''
   \<and> \<not> arg_dry_run ask_args \<and> \<not> arg_yes ask_args
   \<and> main latin1_lower ask_args (Some '' Y '') dry_fs
       = (0, [Stdout (human_preview [MovePlan [''in'', ''report.pdf''] [''out'', ''docs'', ''report.pdf'']] 50),
              Prompt prompt_text, Stdout (CHR 0x0A # ''Done. Moved: 1, Failed: 0'')],
          [([''in''], Dir), ([''out''], Dir), ([''out'', ''docs''], Dir),
           ([''out'', ''docs'', ''report.pdf''], File (Raw ''pdf''))])
   \<and> main latin1_lower ask_args (Some (''y'' @ [CHR 0xC2, CHR 0xA0])) dry_fs
       = (0, [Stdout (human_preview [MovePlan [''in'', ''report.pdf''] [''out'', ''docs'', ''report.pdf'']] 50),
              Prompt prompt_text, Stdout (CHR 0x0A # ''Done. Moved: 1, Failed: 0'')],
          [([''in''], Dir), ([''out''], Dir), ([''out'', ''docs''], Dir),
           ([''out'', ''docs'', ''report.pdf''], File (Raw ''pdf''))])"
  by code_simp

text \<open>
  Claim C7, amended. For every invocation with neither \<open>--dry-run\<close> nor \<open>--yes\<close> whose
  planning gives a non-empty plan, the program prompts, and on end of input or on any
  line that is not \<open>y\<close> once surrounding white space is stripped and the rest
  lower-cased, it prints \<open>Aborted.\<close> and exits 0 without running the Mover: the
  filesystem is the one planning left, in which nothing that existed has changed.
\<close>

theorem declined_confirmation_aborts:
  assumes "\<not> arg_dry_run a" and "\<not> arg_yes a" and "arg_write_default_rules a = None"
    and "is_dir fs (arg_source a)"
    and "load_rules ul fs (arg_rules a) = Inr rules"
    and "plan_moves ul fs (arg_source a) (case arg_dest a of Some d \<Rightarrow> d | None \<Rightarrow> arg_source a)
           (arg_recursive a) (arg_include_hidden a) rules (arg_unknown_folder a) = (Inr moves, fs')"
    and "moves \<noteq> []"
    and "stdin = None \<or> (\<exists>line. stdin = Some line \<and> lower ul (strip line) \<noteq> ''y'')"
  shows "main ul a stdin fs
           = (0, [Stdout (human_preview moves 50), Prompt prompt_text, Stdout ''Aborted.''], fs')
         \<and> only_adds_directories fs fs'"
proof -
  from assms(8) have decline: "\<not> proceed_answer ul stdin"
    by (auto simp: proceed_answer_def)
  have "organize ul a stdin moves fs'
      = (0, [Stdout (human_preview moves 50), Prompt prompt_text, Stdout ''Aborted.''], fs')"
    using assms(1,2,7) decline by (simp add: organize_def)
  with assms(5,6) have "main ul a stdin fs
      = (0, [Stdout (human_preview moves 50), Prompt prompt_text, Stdout ''Aborted.''], fs')"
    by (simp add: main_organize [OF assms(3,4)])
  moreover from plan_moves_adds [where fs = fs and source = "arg_source a"
      and dest = "case arg_dest a of Some d \<Rightarrow> d | None \<Rightarrow> arg_source a"
      and recursive = "arg_recursive a" and include_hidden = "arg_include_hidden a"
      and rules = rules and unknown_folder = "arg_unknown_folder a" and ul = ul] assms(6)
  have "only_adds_directories fs fs'" by simp
  ultimately show ?thesis by simp
qed

text \<open>
  The answer \<open>yes\<close>, the answer \<open>n\<close> followed by a no-break space, and the end of input
  all decline.
\<close>

theorem declined_confirmation_aborts_witness:
  "\<not> arg_dry_run ask_args \<and> \<not> arg_yes ask_args \<and> arg_write_default_rules ask_args = None
   \<and> is_dir dry_fs (arg_source ask_args)
   \<and> lower latin1_lower (strip ''yes'') \<noteq> ''y''
   \<and> lower latin1_lower (strip (''n'' @ [CHR 0xC2, CHR 0xA0])) \<noteq> ''y''
   \<and> main latin1_lower ask_args (Some ''yes'') dry_fs
       = (0, [Stdout (human_preview [MovePlan [''in'', ''report.pdf''] [''out'', ''docs'', ''report.pdf'']] 50),
              Prompt prompt_text, Stdout ''Aborted.''],
          [([''in''], Dir), ([''in'', ''report.pdf''], File (Raw ''pdf'')), ([''out''], Dir),
           ([''out'', ''docs''], Dir)])
   \<and> main latin1_lower ask_args (Some (''n'' @ [CHR 0xC2, CHR 0xA0])) dry_fs
       = (0, [Stdout (human_preview [MovePlan [''in'', ''report.pdf''] [''out'', ''docs'', ''report.pdf'']] 50),
              Prompt prompt_text, Stdout ''Aborted.''],
          [([''in''], Dir), ([''in'', ''report.pdf''], File (Raw ''pdf'')), ([''out''], Dir),
           ([''out'', ''docs''], Dir)])
   \<and> main latin1_lower ask_args None dry_fs
       = (0, [Stdout (human_preview [MovePlan [''in'', ''report.pdf''] [''out'', ''docs'', ''report.pdf'']] 50),
              Prompt prompt_text, Stdout ''Aborted.''],
          [([''in''], Dir), ([''in'', ''report.pdf''], File (Raw ''pdf'')), ([''out''], Dir),
           ([''out'', ''docs''], Dir)])"
proof -
  have flags: "\<not> arg_dry_run ask_args" "\<not> arg_yes ask_args" "arg_write_default_rules ask_args = None"
    by (simp_all add: ask_args_def)
  have dir: "is_dir dry_fs (arg_source ask_args)" by code_simp
  have rules: "load_rules latin1_lower dry_fs (arg_rules ask_args) = Inr DEFAULT_RULES"
    by (simp add: load_rules_def ask_args_def)
  have plan: "plan_moves latin1_lower dry_fs (arg_source ask_args)
        (case arg_dest ask_args of Some d \<Rightarrow> d | None \<Rightarrow> arg_source ask_args)
        (arg_recursive ask_args) (arg_include_hidden ask_args) DEFAULT_RULES
        (arg_unknown_folder ask_args)
      = (Inr [MovePlan [''in'', ''report.pdf''] [''out'', ''docs'', ''report.pdf'']],
         [([''in''], Dir), ([''in'', ''report.pdf''], File (Raw ''pdf'')), ([''out''], Dir),
          ([''out'', ''docs''], Dir)])"
    by code_simp
  have no: "lower latin1_lower (strip ''yes'') \<noteq> ''y''" by code_simp
  have no': "lower latin1_lower (strip (''n'' @ [CHR 0xC2, CHR 0xA0])) \<noteq> ''y''" by code_simp
  have typed: "Some ''yes'' = None
      \<or> (\<exists>line. Some ''yes'' = Some line \<and> lower latin1_lower (strip line) \<noteq> ''y'')"
    using no by simp
  have typed': "Some (''n'' @ [CHR 0xC2, CHR 0xA0]) = None
      \<or> (\<exists>line. Some (''n'' @ [CHR 0xC2, CHR 0xA0]) = Some line
            \<and> lower latin1_lower (strip line) \<noteq> ''y'')"
    using no' by simp
  have eof: "(None :: string option) = None
      \<or> (\<exists>line. None = Some line \<and> lower latin1_lower (strip line) \<noteq> ''y'')"
    by simp
  from declined_confirmation_aborts [OF flags dir rules plan _ typed]
    declined_confirmation_aborts [OF flags dir rules plan _ typed']
    declined_confirmation_aborts [OF flags dir rules plan _ eof]
    flags dir no no'
  show ?thesis by simp
qed


section \<open>Writing the default rules\<close>

definition rules_fs :: filesystem where
  "rules_fs = [([''in''], Dir), ([''in'', ''existing.json''], File (Raw ''{}''))]"

definition rules_args :: "path \<Rightarrow> args" where
  "rules_args target = \<lparr>arg_source = [''in''], arg_dest = None, arg_rules = None,
     arg_unknown_folder = ''others'', arg_recursive = False, arg_include_hidden = False,
     arg_dry_run = False, arg_yes = False, arg_write_default_rules = Some target\<rparr>"

lemma lookup_update:
  "p \<noteq> [] \<Longrightarrow> lookup (AList.update p n fs) q = (if q = p then Some n else lookup fs q)"
  by (simp add: lookup_def update_conv')

text \<open>
  Claim C8, as stated, fails for a target that does not exist in a directory that does
  not exist either: opening the file raises, nothing is written and the exit status
  is 1.
\<close>

theorem write_default_rules_missing_directory:
  "\<not> exists rules_fs [''nodir'', ''rules.json'']
   \<and> main latin1_lower (rules_args [''nodir'', ''rules.json'']) None rules_fs
       = (1, [Stderr ''No such file or directory''], rules_fs)"
  by code_simp

text \<open>
  Claim C8, amended. With \<open>--write-default-rules target\<close>: when the target exists, the
  program exits with status 1 and the refusal on standard error, the filesystem is
  untouched and nothing else is printed, so no part of the organize workflow has run.
  When the target does not exist and its parent is a directory, the program writes the
  built-in mapping to the target, changes nothing else, reports it and exits 0. When
  the parent is not a directory, nothing is written and the exit status is 1.
\<close>

theorem write_default_rules_refuses_or_writes:
  assumes "arg_write_default_rules a = Some target"
  shows "(exists fs target \<longrightarrow>
            main ul a stdin fs
              = (1, [Stderr (''Refusing to overwrite existing rules file: '' @ str_path target)], fs))
       \<and> (\<not> exists fs target \<and> is_dir fs (path_parent target) \<longrightarrow>
            (\<exists>fs'. main ul a stdin fs = (0, [Stdout (''Wrote default rules to '' @ str_path target)], fs')
                \<and> lookup fs' target = Some (File (Json DEFAULT_RULES_json))
                \<and> (\<forall>q. q \<noteq> target \<longrightarrow> lookup fs' q = lookup fs q)))
       \<and> (\<not> exists fs target \<and> \<not> is_dir fs (path_parent target) \<longrightarrow>
            main ul a stdin fs = (1, [Stderr (error_text (parent_error fs target))], fs))"
proof (intro conjI impI)
  assume "exists fs target"
  with assms show "main ul a stdin fs
      = (1, [Stderr (''Refusing to overwrite existing rules file: '' @ str_path target)], fs)"
    by (simp add: main_def write_default_rules_def)
next
  assume free: "\<not> exists fs target \<and> is_dir fs (path_parent target)"
  then have ne: "target \<noteq> []" and nd: "\<not> is_dir fs target"
    by (auto simp: exists_def lookup_def is_dir_def)
  let ?fs' = "AList.update target (File (Json DEFAULT_RULES_json)) fs"
  from assms free nd have "main ul a stdin fs
      = (0, [Stdout (''Wrote default rules to '' @ str_path target)], ?fs')"
    by (simp add: main_def write_default_rules_def write_file_def)
  moreover have "lookup ?fs' target = Some (File (Json DEFAULT_RULES_json))"
    using ne by (simp add: lookup_update)
  moreover have "\<forall>q. q \<noteq> target \<longrightarrow> lookup ?fs' q = lookup fs q"
    using ne by (simp add: lookup_update)
  ultimately show "\<exists>fs'. main ul a stdin fs
        = (0, [Stdout (''Wrote default rules to '' @ str_path target)], fs')
      \<and> lookup fs' target = Some (File (Json DEFAULT_RULES_json))
      \<and> (\<forall>q. q \<noteq> target \<longrightarrow> lookup fs' q = lookup fs q)"
    by blast
next
  assume missing: "\<not> exists fs target \<and> \<not> is_dir fs (path_parent target)"
  then have nd: "\<not> is_dir fs target" by (auto simp: exists_def is_dir_def)
  from assms missing nd show "main ul a stdin fs = (1, [Stderr (error_text (parent_error fs target))], fs)"
    by (simp add: main_def write_default_rules_def write_file_def)
qed

theorem write_default_rules_refuses_or_writes_witness:
  "arg_write_default_rules (rules_args [''in'', ''existing.json'']) = Some [''in'', ''existing.json'']
   \<and> exists rules_fs [''in'', ''existing.json'']
   \<and> main latin1_lower (rules_args [''in'', ''existing.json'']) None rules_fs
       = (1, [Stderr ''Refusing to overwrite existing rules file: /in/existing.json''], rules_fs)
   \<and> \<not> exists rules_fs [''in'', ''new.json''] \<and> is_dir rules_fs (path_parent [''in'', ''new.json''])
   \<and> fst (main latin1_lower (rules_args [''in'', ''new.json'']) None rules_fs) = 0
   \<and> lookup (snd (snd (main latin1_lower (rules_args [''in'', ''new.json'']) None rules_fs))) [''in'', ''new.json'']
       = Some (File (Json DEFAULT_RULES_json))
   \<and> lookup (snd (snd (main latin1_lower (rules_args [''in'', ''new.json'']) None rules_fs))) [''in'', ''existing.json'']
       = Some (File (Raw ''{}''))"
proof -
  have a1: "arg_write_default_rules (rules_args [''in'', ''existing.json'']) = Some [''in'', ''existing.json'']"
    and a2: "arg_write_default_rules (rules_args [''in'', ''new.json'']) = Some [''in'', ''new.json'']"
    by (simp_all add: rules_args_def)
  have ex: "exists rules_fs [''in'', ''existing.json'']" by code_simp
  have free: "\<not> exists rules_fs [''in'', ''new.json''] \<and> is_dir rules_fs (path_parent [''in'', ''new.json''])"
    by code_simp
  have old: "lookup rules_fs [''in'', ''existing.json''] = Some (File (Raw ''{}''))" by code_simp
  have s: "str_path [''in'', ''existing.json''] = ''/in/existing.json''" by code_simp
  from write_default_rules_refuses_or_writes [OF a1, where fs = rules_fs and stdin = None and ul = latin1_lower] ex s
  have refuse: "main latin1_lower (rules_args [''in'', ''existing.json'']) None rules_fs
       = (1, [Stderr ''Refusing to overwrite existing rules file: /in/existing.json''], rules_fs)"
    by simp
  from write_default_rules_refuses_or_writes [OF a2, where fs = rules_fs and stdin = None and ul = latin1_lower] free
  obtain fs' where w: "main latin1_lower (rules_args [''in'', ''new.json'']) None rules_fs
        = (0, [Stdout (''Wrote default rules to '' @ str_path [''in'', ''new.json''])], fs')"
      "lookup fs' [''in'', ''new.json''] = Some (File (Json DEFAULT_RULES_json))"
      "\<forall>q. q \<noteq> [''in'', ''new.json''] \<longrightarrow> lookup fs' q = lookup rules_fs q"
    by blast
  from w(3) old have "lookup fs' [''in'', ''existing.json''] = Some (File (Raw ''{}''))" by simp
  with a1 ex refuse free w(1,2) show ?thesis by simp
qed

section \<open>Plans whose entries collide\<close>

text \<open>Two files of the same name in two subdirectories of the source.\<close>

definition collide_fs :: filesystem where
  "collide_fs = [([''in''], Dir), ([''in'', ''a''], Dir), ([''in'', ''b''], Dir),
                 ([''in'', ''a'', ''x.txt''], File (Raw ''one'')),
                 ([''in'', ''b'', ''x.txt''], File (Raw ''two''))]"

definition collide_args :: args where
  "collide_args = \<lparr>arg_source = [''in''], arg_dest = Some [''out''], arg_rules = None,
     arg_unknown_folder = ''others'', arg_recursive = True, arg_include_hidden = False,
     arg_dry_run = False, arg_yes = True, arg_write_default_rules = None\<rparr>"

text \<open>
  Claim C1 does not hold of the code. \<open>unique_destination\<close> looks at the filesystem
  only, and no file moves while the plan is built, so both files are planned onto
  \<open>/out/docs/x.txt\<close>. Carrying the plan out reports two successes and leaves one
  file: the second move has replaced the first.
\<close>

theorem plan_moves_batch_collision:
  "fst (plan_moves ul collide_fs [''in''] [''out''] True False DEFAULT_RULES ''others'')
     = Inr [MovePlan [''in'', ''a'', ''x.txt''] [''out'', ''docs'', ''x.txt''],
            MovePlan [''in'', ''b'', ''x.txt''] [''out'', ''docs'', ''x.txt'']]
   \<and> main ul collide_args None collide_fs
     = (0, [Stdout (human_preview [MovePlan [''in'', ''a'', ''x.txt''] [''out'', ''docs'', ''x.txt''],
                                  MovePlan [''in'', ''b'', ''x.txt''] [''out'', ''docs'', ''x.txt'']] 50),
            Stdout (CHR 0x0A # ''Done. Moved: 2, Failed: 0'')],
        [([''in''], Dir), ([''in'', ''a''], Dir), ([''in'', ''b''], Dir), ([''out''], Dir),
         ([''out'', ''docs''], Dir), ([''out'', ''docs'', ''x.txt''], File (Raw ''two''))])"
  by code_simp

section \<open>Running the organizer twice\<close>

text \<open>A recursive run in place, confirmed with \<open>--yes\<close>, on a directory with one file.\<close>

definition rerun_fs :: filesystem where
  "rerun_fs = [([''in''], Dir), ([''in'', ''x.txt''], File (Raw ''one''))]"

definition rerun_args :: args where
  "rerun_args = \<lparr>arg_source = [''in''], arg_dest = None, arg_rules = None,
     arg_unknown_folder = ''others'', arg_recursive = True, arg_include_hidden = False,
     arg_dry_run = False, arg_yes = True, arg_write_default_rules = None\<rparr>"


text \<open>
  Claim C2 does not hold of the code. The first run moves \<open>/in/x.txt\<close> to
  \<open>/in/docs/x.txt\<close>. Planning again with the same flags meets that file below the
  source, finds its own name taken in \<open>/in/docs\<close> (by the file itself) and plans to
  rename it to \<open>x (2).txt\<close>: the plan is not empty. The test that skips a file whose
  destination is its own path comes after \<open>unique_destination\<close>, which never returns
  a path that exists.
\<close>

theorem second_run_plans_again:
  "main ul rerun_args None rerun_fs
     = (0, [Stdout (human_preview [MovePlan [''in'', ''x.txt''] [''in'', ''docs'', ''x.txt'']] 50),
            Stdout (CHR 0x0A # ''Done. Moved: 1, Failed: 0'')],
        [([''in''], Dir), ([''in'', ''docs''], Dir), ([''in'', ''docs'', ''x.txt''], File (Raw ''one''))])
   \<and> fst (plan_moves ul [([''in''], Dir), ([''in'', ''docs''], Dir),
                       ([''in'', ''docs'', ''x.txt''], File (Raw ''one''))]
            [''in''] [''in''] True False DEFAULT_RULES ''others'')
     = Inr [MovePlan [''in'', ''docs'', ''x.txt''] [''in'', ''docs'', ''x (2).txt'']]"
  by code_simp

end
